theory Spec2Isabelle
  imports
    Complex_Main
    "HOL-Library.Product_Lexorder"
    "HOL-Library.Multiset"
    "HOL-Library.AList"
begin

section \<open>Workspaces webview: pull requests and issues\<close>

text \<open>
  The model of \<^verbatim>\<open>src/plus/webviews/workspaces/workspacesWebview.ts\<close>.
  Dates are the millisecond timestamps that \<^verbatim>\<open>Date.getTime()\<close> returns (valid dates only).
  Of the two enumerations only \<^verbatim>\<open>Approved\<close>, \<^verbatim>\<open>ChangesRequested\<close>, \<^verbatim>\<open>Mergeable\<close> and
  \<^verbatim>\<open>Conflicting\<close> are named by the source; the third member of each stands for every
  other value and the option for an absent field.
\<close>

datatype PullRequestReviewDecision = Approved | ChangesRequested | ReviewRequired

datatype PullRequestMergeableState = Mergeable | Conflicting | Unknown

record PullRequest =
  prId :: string
  date :: int
  reviewDecision :: "PullRequestReviewDecision option"
  mergeableState :: "PullRequestMergeableState option"

record SearchedPullRequest =
  pullRequest :: PullRequest
  reasons :: "string list"

record Issue =
  issueId :: string
  updatedDate :: int

record SearchedIssue =
  issue :: Issue
  issueReasons :: "string list"

text \<open>\<^verbatim>\<open>getScore\<close>, lines 117-142.\<close>

definition getScore :: "SearchedPullRequest \<Rightarrow> int" where
  "getScore pr =
     (let score = 0;
          score =
            (if ''author'' \<in> set (reasons pr) then score + 1000
             else if ''assignee'' \<in> set (reasons pr) then score + 900
             else if ''reviewer'' \<in> set (reasons pr) then score + 800
             else if ''mentioned'' \<in> set (reasons pr) then score + 700
             else score);
          score =
            (if reviewDecision (pullRequest pr) = Some Approved then
               (if mergeableState (pullRequest pr) = Some Mergeable then score + 100
                else if mergeableState (pullRequest pr) = Some Conflicting then score + 90
                else score + 80)
             else if reviewDecision (pullRequest pr) = Some ChangesRequested then score + 70
             else score)
      in score)"

text \<open>The comparator handed to \<^verbatim>\<open>sort\<close>, lines 144-152.\<close>

definition comparePullRequests :: "SearchedPullRequest \<Rightarrow> SearchedPullRequest \<Rightarrow> int" where
  "comparePullRequests a b =
     (let scoreA = getScore a; scoreB = getScore b
      in if scoreA = scoreB then date (pullRequest a) - date (pullRequest b)
         else scoreB - scoreA)"

text \<open>The comparator of the issues, line 170.\<close>

definition compareIssues :: "SearchedIssue \<Rightarrow> SearchedIssue \<Rightarrow> int" where
  "compareIssues a b = updatedDate (issue b) - updatedDate (issue a)"

text \<open>
  \<^verbatim>\<open>Array.prototype.sort\<close> with a comparator is the runtime's; ECMAScript requires it to be
  stable. It is modelled as the stable insertion sort: an element goes before the first
  element it does not compare greater than.
\<close>

primrec array_insert :: "('a \<Rightarrow> 'a \<Rightarrow> int) \<Rightarrow> 'a \<Rightarrow> 'a list \<Rightarrow> 'a list" where
  "array_insert cmp x [] = [x]"
| "array_insert cmp x (y # ys) =
     (if cmp x y \<le> 0 then x # y # ys else y # array_insert cmp x ys)"

definition array_sort :: "('a \<Rightarrow> 'a \<Rightarrow> int) \<Rightarrow> 'a list \<Rightarrow> 'a list" where
  "array_sort cmp xs = foldr (array_insert cmp) xs []"

text \<open>
  The environment of the webview: the open repositories, the rich remote of each
  (\<^verbatim>\<open>repo.getRichRemote(true)\<close>, absent or a provider), and what the remote API answers
  for a provider (absent, or a list).
\<close>

type_synonym repository = nat
type_synonym provider = nat

record environment =
  openRepositories :: "repository list"
  getRichRemote :: "repository \<Rightarrow> provider option"
  gitGetMyPullRequests :: "provider \<Rightarrow> SearchedPullRequest list option"
  gitGetMyIssues :: "provider \<Rightarrow> SearchedIssue list option"

datatype remote_call =
    CallGetRichRemote repository
  | CallGetMyPullRequests provider
  | CallGetMyIssues provider

text \<open>\<^verbatim>\<open>getRichRepos\<close>, lines 89-103: the loop over the open repositories.\<close>

fun richReposLoop ::
  "(repository \<Rightarrow> provider option) \<Rightarrow> repository list \<Rightarrow> (repository \<times> provider) list
     \<Rightarrow> (repository \<times> provider) list" where
  "richReposLoop grr [] repos = repos"
| "richReposLoop grr (repo # rest) repos =
     (case grr repo of
        None \<Rightarrow> richReposLoop grr rest repos
      | Some richRemote \<Rightarrow>
          if richRemote \<in> snd ` set repos then richReposLoop grr rest repos
          else richReposLoop grr rest (repos @ [(repo, richRemote)]))"

definition getRichRepos :: "environment \<Rightarrow> remote_call list \<times> (repository \<times> provider) list" where
  "getRichRepos env =
     (map CallGetRichRemote (openRepositories env),
      richReposLoop (getRichRemote env) (openRepositories env) [])"

text \<open>The loops of lines 109-115 and 162-168: the answers are filtered and appended.\<close>

fun collectReasoned ::
  "(provider \<Rightarrow> 'a list option) \<Rightarrow> ('a \<Rightarrow> string list) \<Rightarrow> (repository \<times> provider) list
     \<Rightarrow> 'a list \<Rightarrow> 'a list" where
  "collectReasoned fetchMy rs [] acc = acc"
| "collectReasoned fetchMy rs ((repo, provider) # rest) acc =
     (case fetchMy provider of
        None \<Rightarrow> collectReasoned fetchMy rs rest acc
      | Some prs \<Rightarrow> collectReasoned fetchMy rs rest (acc @ filter (\<lambda>pr. length (rs pr) > 0) prs))"

text \<open>The instance fields \<^verbatim>\<open>_pullRequests\<close> and \<^verbatim>\<open>_issues\<close>.\<close>

record webview =
  pullRequests_cache :: "SearchedPullRequest list"
  issues_cache :: "SearchedIssue list"

text \<open>
  \<^verbatim>\<open>getMyPullRequests\<close>, lines 105-156, and \<^verbatim>\<open>getMyIssues\<close>, lines 158-174. Each returns
  the remote calls it made, its result and the webview after it.
\<close>

definition getMyPullRequests ::
  "environment \<Rightarrow> webview \<Rightarrow> remote_call list \<times> SearchedPullRequest list \<times> webview" where
  "getMyPullRequests env w =
     (if length (pullRequests_cache w) = 0 then
        (let (calls, richRepos) = getRichRepos env;
             allPrs = collectReasoned (gitGetMyPullRequests env) reasons richRepos [];
             w' = w\<lparr>pullRequests_cache := array_sort comparePullRequests allPrs\<rparr>
         in (calls @ map (CallGetMyPullRequests \<circ> snd) richRepos, pullRequests_cache w', w'))
      else ([], pullRequests_cache w, w))"

definition getMyIssues ::
  "environment \<Rightarrow> webview \<Rightarrow> remote_call list \<times> SearchedIssue list \<times> webview" where
  "getMyIssues env w =
     (if length (issues_cache w) = 0 then
        (let (calls, richRepos) = getRichRepos env;
             allIssues = collectReasoned (gitGetMyIssues env) issueReasons richRepos [];
             w' = w\<lparr>issues_cache := array_sort compareIssues allIssues\<rparr>
         in (calls @ map (CallGetMyIssues \<circ> snd) richRepos, issues_cache w', w'))
      else ([], issues_cache w, w))"

text \<open>
  \<^verbatim>\<open>getState\<close>, lines 65-83. The two serialisers are not in this file; they are applied
  element by element and are parameters here.
\<close>

record ('p, 'i) State =
  pullRequests :: "('p \<times> string list) list"
  issues :: "('i \<times> string list) list"

definition getState ::
  "(PullRequest \<Rightarrow> 'p) \<Rightarrow> (Issue \<Rightarrow> 'i) \<Rightarrow> environment \<Rightarrow> webview
     \<Rightarrow> remote_call list \<times> ('p, 'i) State \<times> webview" where
  "getState serializePullRequest serializeIssue env w =
     (let (calls1, prs, w1) = getMyPullRequests env w;
          serializedPrs = map (\<lambda>pr. (serializePullRequest (pullRequest pr), reasons pr)) prs;
          (calls2, issues, w2) = getMyIssues env w1;
          serializedIssues = map (\<lambda>i. (serializeIssue (issue i), issueReasons i)) issues
      in (calls1 @ calls2, \<lparr>pullRequests = serializedPrs, issues = serializedIssues\<rparr>, w2))"

text \<open>
  Successive calls of \<^verbatim>\<open>getState\<close> (from \<^verbatim>\<open>includeBootstrap\<close>, line 86, and from
  \<^verbatim>\<open>notifyDidChangeState\<close>, line 185), each under the environment of its moment. The
  handler of the refresh command, line 40, is \<^verbatim>\<open>this.refresh(true)\<close> of the base class; the
  two fields are private to this class and assigned only in lines 144 and 170, so whatever
  the base class does reaches them through such calls only.
\<close>

fun getStates ::
  "(PullRequest \<Rightarrow> 'p) \<Rightarrow> (Issue \<Rightarrow> 'i) \<Rightarrow> environment list \<Rightarrow> webview
     \<Rightarrow> (remote_call list \<times> ('p, 'i) State) list \<times> webview" where
  "getStates sp si [] w = ([], w)"
| "getStates sp si (env # envs) w =
     (let (calls, state, w') = getState sp si env w;
          (rest, w'') = getStates sp si envs w'
      in ((calls, state) # rest, w''))"



section \<open>Graph webview\<close>

text \<open>
  The model of \<^verbatim>\<open>src/webviews/apps/plus/graph/graph.tsx\<close>. A \<^verbatim>\<open>CssVariables\<close> object is
  an association list in insertion order: assigning a property replaces the value of a key
  that is present and appends a key that is not.
\<close>

type_synonym CssVariables = "(string \<times> string) list"

record 'k GraphConfig =
  columnColors :: "string list option"
  otherSettings :: 'k

text \<open>
  The fields of the webview state that the file reads or writes; \<open>otherFields\<close> stands for
  every other field of \<^verbatim>\<open>State\<close> (its declaration is not in this file).
\<close>

record ('c, 'l, 'k, 'r) GraphState =
  commits :: 'c
  log :: 'l
  config :: "'k GraphConfig option"
  mixedColumnColors :: "CssVariables option"
  otherFields :: 'r

text \<open>
  A state as a message carries it (\<^verbatim>\<open>params.state\<close>): a field that is absent leaves the
  field of the spread \<^verbatim>\<open>{...this.state, ...params.state}\<close> as it was.
\<close>

record ('c, 'l, 'k, 'r) PartialGraphState =
  commits_opt :: "'c option"
  log_opt :: "'l option"
  config_opt :: "'k GraphConfig option option"
  mixedColumnColors_opt :: "CssVariables option option"
  otherFields_opt :: "'r option"

text \<open>
  What the colour computation takes from outside this file: the background colour of the
  document and the functions \<^verbatim>\<open>mix\<close> and \<^verbatim>\<open>opacity\<close> of \<^verbatim>\<open>shared/colors\<close>.
\<close>

record theme =
  bgColor :: string
  mix :: "string \<Rightarrow> string \<Rightarrow> nat \<Rightarrow> string"
  opacity :: "string \<Rightarrow> nat \<Rightarrow> string"

text \<open>A number in a template literal: its decimal digits.\<close>

definition digit :: "nat \<Rightarrow> char" where
  "digit d = ''0123456789'' ! d"

function toString :: "nat \<Rightarrow> string" where
  "toString n = (if n < 10 then [digit n] else toString (n div 10) @ [digit (n mod 10)])"
  by pat_completeness auto
termination
  by (relation "measure (\<lambda>n. n)") auto

declare toString.simps [simp del]

text \<open>Reading a decimal string back, for the proofs about the variable names.\<close>

definition is_digit :: "char \<Rightarrow> bool" where
  "is_digit c = (c \<in> set ''0123456789'')"

definition digitValue :: "char \<Rightarrow> nat" where
  "digitValue c = length (takeWhile (\<lambda>d. d \<noteq> c) ''0123456789'')"

definition fromString :: "string \<Rightarrow> nat" where
  "fromString s = foldl (\<lambda>a c. 10 * a + digitValue c) 0 s"

definition variableIndex :: "string \<Rightarrow> nat" where
  "variableIndex k =
     fromString (takeWhile is_digit (if k ! 2 = CHR ''g'' then drop 14 k else drop 9 k))"

text \<open>\<^verbatim>\<open>getGraphColors\<close>, lines 119-140.\<close>

definition defaultColumnColors :: "string list" where
  "defaultColumnColors =
     [''#00bcd4'', ''#ff9800'', ''#9c27b0'', ''#2196f3'', ''#009688'', ''#ffeb3b'', ''#ff5722'',
      ''#795548'']"

definition setColumnVariables :: "theme \<Rightarrow> string list \<Rightarrow> nat \<Rightarrow> CssVariables \<Rightarrow> CssVariables" where
  "setColumnVariables th cols i mixedGraphColors =
     (let m = AList.update (''--graph-color-'' @ toString i) (cols ! i) mixedGraphColors;
          m = AList.update (''--column-'' @ toString i @ ''-color'') (cols ! i) m;
          m = fold (\<lambda>mixInt. AList.update (''--graph-color-'' @ toString i @ ''-bg'' @ toString mixInt)
                      (mix th (bgColor th) (cols ! i) mixInt)) [15, 25, 45, 50] m;
          m = fold (\<lambda>mixInt. AList.update (''--graph-color-'' @ toString i @ ''-f'' @ toString mixInt)
                      (opacity th (cols ! i) mixInt)) [10, 50] m
      in m)"

definition configuredColumnColors :: "'k GraphConfig option \<Rightarrow> string list" where
  "configuredColumnColors cfg =
     (case cfg of
        None \<Rightarrow> defaultColumnColors
      | Some c \<Rightarrow> (case columnColors c of None \<Rightarrow> defaultColumnColors | Some cs \<Rightarrow> cs))"

definition getGraphColors :: "theme \<Rightarrow> 'k GraphConfig option \<Rightarrow> CssVariables" where
  "getGraphColors th cfg =
     (let cols = configuredColumnColors cfg
      in fold (setColumnVariables th cols) [0 ..< length cols] [])"

text \<open>
  The application object: the state the base class holds and the subscriber registered by
  \<^verbatim>\<open>registerEvents\<close> (absent until then).
\<close>

record ('c, 'l, 'k, 'r, 'cb) GraphApp =
  state :: "('c, 'l, 'k, 'r) GraphState"
  callback :: "'cb option"

text \<open>
  \<^verbatim>\<open>setState\<close>, lines 112-117; the base class's \<^verbatim>\<open>setState\<close> stores the state it is given.
\<close>

definition setState ::
  "theme \<Rightarrow> ('c, 'l, 'k, 'r) GraphState \<Rightarrow> ('c, 'l, 'k, 'r, 'cb) GraphApp
     \<Rightarrow> ('c, 'l, 'k, 'r, 'cb) GraphApp" where
  "setState th st app =
     (let st = (if mixedColumnColors st = None
                then st\<lparr>mixedColumnColors := Some (getGraphColors th (config st))\<rparr>
                else st)
      in app\<lparr>state := st\<rparr>)"

text \<open>
  What the handler does outside the object: it calls the subscriber with a state
  (\<^verbatim>\<open>refresh\<close>, lines 179-183), or hands the message to the handler of the base class.
\<close>

datatype ('c, 'l, 'k, 'r, 'cb, 'm) effect =
    CallbackCalled 'cb "('c, 'l, 'k, 'r) GraphState"
  | SuperOnMessageReceived 'm

definition refresh ::
  "('c, 'l, 'k, 'r, 'cb) GraphApp \<Rightarrow> ('c, 'l, 'k, 'r) GraphState
     \<Rightarrow> ('c, 'l, 'k, 'r, 'cb, 'm) effect list" where
  "refresh app st = (case callback app of None \<Rightarrow> [] | Some cb \<Rightarrow> [CallbackCalled cb st])"

text \<open>
  A message of the host: the name of its method decides the type of its parameters, so the
  three names the handler knows are three constructors, and \<open>OtherMessage\<close> is a message
  with any other name.
\<close>

datatype ('c, 'l, 'k, 'r, 'm) message =
    DidChangeNotification "('c, 'l, 'k, 'r) PartialGraphState"
  | DidChangeCommitsNotification 'c 'l
  | DidChangeGraphConfigurationNotification "'k GraphConfig option"
  | OtherMessage 'm

definition spread ::
  "('c, 'l, 'k, 'r) GraphState \<Rightarrow> ('c, 'l, 'k, 'r) PartialGraphState \<Rightarrow> ('c, 'l, 'k, 'r) GraphState" where
  "spread st p =
     \<lparr>commits = (case commits_opt p of None \<Rightarrow> commits st | Some v \<Rightarrow> v),
      log = (case log_opt p of None \<Rightarrow> log st | Some v \<Rightarrow> v),
      config = (case config_opt p of None \<Rightarrow> config st | Some v \<Rightarrow> v),
      mixedColumnColors =
        (case mixedColumnColors_opt p of None \<Rightarrow> mixedColumnColors st | Some v \<Rightarrow> v),
      otherFields = (case otherFields_opt p of None \<Rightarrow> otherFields st | Some v \<Rightarrow> v)\<rparr>"

text \<open>\<^verbatim>\<open>onMessageReceived\<close>, lines 62-105, and \<^verbatim>\<open>onThemeUpdated\<close>, lines 107-110.\<close>

fun onMessageReceived ::
  "theme \<Rightarrow> ('c, 'l, 'k, 'r, 'm) message \<Rightarrow> ('c, 'l, 'k, 'r, 'cb) GraphApp
     \<Rightarrow> ('c, 'l, 'k, 'r, 'cb) GraphApp \<times> ('c, 'l, 'k, 'r, 'cb, 'm) effect list" where
  "onMessageReceived th (DidChangeNotification p) app =
     (let app' = setState th ((spread (state app) p)\<lparr>mixedColumnColors := None\<rparr>) app
      in (app', refresh app' (state app')))"
| "onMessageReceived th (DidChangeCommitsNotification cs lg) app =
     (let app' = setState th ((state app)\<lparr>commits := cs, log := lg\<rparr>) app
      in (app', refresh app' (state app')))"
| "onMessageReceived th (DidChangeGraphConfigurationNotification cfg) app =
     (let app' = setState th ((state app)\<lparr>config := cfg, mixedColumnColors := None\<rparr>) app
      in (app', refresh app' (state app')))"
| "onMessageReceived th (OtherMessage m) app = (app, [SuperOnMessageReceived m])"

definition onThemeUpdated ::
  "theme \<Rightarrow> ('c, 'l, 'k, 'r, 'cb) GraphApp
     \<Rightarrow> ('c, 'l, 'k, 'r, 'cb) GraphApp \<times> ('c, 'l, 'k, 'r, 'cb, unit) effect list" where
  "onThemeUpdated th app =
     (let app' = setState th ((state app)\<lparr>mixedColumnColors := None\<rparr>) app
      in (app', refresh app' (state app')))"

section \<open>The command that generates a commit message\<close>

text \<open>
  The model of \<^verbatim>\<open>GenerateCommitMessageCommand.execute\<close>. A call that may throw (a promise
  that may reject) has an outcome; the command's effects on the host are a list of events in
  the order in which they happen.
\<close>

datatype 'a outcome = Throws | Returns 'a

record OpenAICompletionRequest =
  model :: string
  prompt :: string
  max_tokens :: nat
  temperature :: real
  top_p :: real
  stream :: bool

record request =
  url :: string
  headers :: "(string \<times> string) list"
  httpMethod :: string
  body :: OpenAICompletionRequest

text \<open>
  Of the completion only the texts of its choices are read; \<^verbatim>\<open>rsp.json()\<close> may throw.
\<close>

record response =
  ok :: bool
  status :: nat
  statusText :: string
  json :: "string list outcome"

record Repository =
  path :: string
  uri :: string

datatype event =
    GetSecret string
  | ShowInputBox string string
  | StoreSecret string string
  | GetRepository string
  | GetBestRepositoryOrShow string
  | GetScmRepository string
  | GetDiff string string
  | ShowInformationMessage string
  | WithProgress string
  | Fetch request
  | ShowGenericErrorMessage string
  | ExecuteCoreCommand string
  | SetInputBoxValue string
  | ShowWarningMessage string
  | LoggerError string

text \<open>
  What the host and the services answer: the stored secret, the values the user enters in
  the input box one after the other (the user who runs out of them dismisses the box), the
  argument \<^verbatim>\<open>args.repoPath\<close>, the repository lookups, the value of the input box of the
  SCM repository of a path (absent when there is no such repository), the diff of the staged
  changes (\<open>Returns None\<close> when \<^verbatim>\<open>diff?.diff\<close> is null) and the answer to the request.
\<close>

record host =
  storedSecret :: "string option"
  enteredValues :: "string list"
  repoPath :: "string option"
  getRepository :: "string \<Rightarrow> Repository option"
  bestRepository :: "Repository option"
  scmInputBoxValue :: "string \<Rightarrow> string option"
  getDiff :: "string \<Rightarrow> string option outcome"
  fetch :: "request \<Rightarrow> response outcome"

text \<open>The test of \<^verbatim>\<open>/sk-[a-zA-Z0-9]{32}/\<close>, line 424: a match may start at any position.\<close>

definition alphanumeric :: "char \<Rightarrow> bool" where
  "alphanumeric c =
     (c \<in> set ''abcdefghijklmnopqrstuvwxyzABCDEFGHIJKLMNOPQRSTUVWXYZ0123456789'')"

definition matchesAtStart :: "string \<Rightarrow> bool" where
  "matchesAtStart s =
     (take 3 s = ''sk-'' \<and> length (take 32 (drop 3 s)) = 32 \<and>
      list_all alphanumeric (take 32 (drop 3 s)))"

fun regexTest :: "string \<Rightarrow> bool" where
  "regexTest [] = matchesAtStart []"
| "regexTest (c # cs) = (matchesAtStart (c # cs) \<or> regexTest cs)"

definition validateInput :: "string \<Rightarrow> string option" where
  "validateInput v =
     (if v = [] \<or> \<not> regexTest v then Some ''Please enter a valid OpenAI API key'' else None)"

text \<open>
  The input box of the host: it closes with a value only when \<^verbatim>\<open>validateInput\<close> has no
  message for it, and with nothing when it is dismissed.
\<close>

definition showInputBox :: "string list \<Rightarrow> string option" where
  "showInputBox vs = find (\<lambda>v. validateInput v = None) vs"

text \<open>
  \<^verbatim>\<open>String.prototype.trim\<close> removes the white space and the line terminators of ECMAScript
  from both ends. A string is the list of its code units, and a \<open>char\<close> is a code unit below
  256; of the characters that \<^verbatim>\<open>trim\<close> removes, those below 256 are the tabulation, the
  line feed, the vertical tabulation, the form feed, the carriage return, the space and the
  no-break space U+00A0 (the others start at U+1680).
\<close>

definition whiteSpace :: "char \<Rightarrow> bool" where
  "whiteSpace c =
     (c \<in> set [CHR 0x09, CHR 0x0A, CHR 0x0B, CHR 0x0C, CHR 0x0D, CHR 0x20, CHR 0xA0])"

definition trim :: "string \<Rightarrow> string" where
  "trim s = rev (dropWhile whiteSpace (rev (dropWhile whiteSpace s)))"

text \<open>The request of lines 460-480.\<close>

definition promptFor :: "string \<Rightarrow> string" where
  \<open>promptFor code =
     ''Commit messages have a less than 50 character short description followed by a new line and then a longer more detailed description. Using an informal tone, write a very concise but meaningful commit message by summarizing the changes in code diff between ---. Don't repeat yourself and avoid punctuation, filler words, filenames, names from the code, and phrases like "this commit", "this diff", "this change", "these changes".\<newline>\<newline>---\<newline>''
     @ code @ ''\<newline>---''\<close>

definition completionRequest :: "string \<Rightarrow> string \<Rightarrow> request" where
  "completionRequest openaiApiKey code =
     \<lparr>url = ''https://api.openai.com/v1/completions'',
      headers = [(''Authorization'', ''Bearer '' @ openaiApiKey),
                 (''Content-Type'', ''application/json'')],
      httpMethod = ''POST'',
      body = \<lparr>model = ''text-davinci-003'', prompt = promptFor code, max_tokens = 500,
               temperature = 0.5, top_p = 1.0, stream = False\<rparr>\<rparr>"

text \<open>The task run under the progress notification, lines 472-498.\<close>

definition generate :: "host \<Rightarrow> string \<Rightarrow> string \<Rightarrow> string \<Rightarrow> event list \<times> unit outcome" where
  "generate h openaiApiKey code inputBoxValue =
     (let rq = completionRequest openaiApiKey code
      in case fetch h rq of
           Throws \<Rightarrow> ([Fetch rq], Throws)
         | Returns rsp \<Rightarrow>
             if \<not> ok rsp then
               ([Fetch rq,
                 ShowGenericErrorMessage
                   (''Unable to generate commit message: '' @ toString (status rsp) @ '': '' @
                    statusText rsp)],
                Returns ())
             else
               (case json rsp of
                  Throws \<Rightarrow> ([Fetch rq], Throws)
                | Returns choices \<Rightarrow>
                    (case choices of
                       [] \<Rightarrow> ([Fetch rq, ExecuteCoreCommand ''ShowSCM''], Throws)
                     | text # _ \<Rightarrow>
                         (let message = trim text
                          in ([Fetch rq, ExecuteCoreCommand ''ShowSCM'',
                               SetInputBoxValue
                                 ((if inputBoxValue \<noteq> [] then inputBoxValue @ ''\<newline>\<newline>''
                                   else []) @ message)],
                              Returns ())))))"

text \<open>The \<^verbatim>\<open>try\<close> block and its \<^verbatim>\<open>catch\<close>, lines 450-508.\<close>

definition catchBlock :: "event list" where
  "catchBlock =
     [LoggerError ''GenerateCommitMessageCommand'',
      ShowGenericErrorMessage ''Unable to generate commit message'']"

definition truncationWarning :: string where
  "truncationWarning =
     ''The diff of the staged changes had to be truncated to 8000 characters to fit within the OpenAI's limits.''"

definition tryBlock :: "host \<Rightarrow> string \<Rightarrow> Repository \<Rightarrow> string \<Rightarrow> event list" where
  "tryBlock h openaiApiKey repository inputBoxValue =
     [GetDiff (uri repository) ''uncommittedStaged''] @
     (case getDiff h (uri repository) of
        Throws \<Rightarrow> catchBlock
      | Returns None \<Rightarrow>
          [ShowInformationMessage ''No staged changes to generate a commit message from.'']
      | Returns (Some diff) \<Rightarrow>
          (let code = take 8000 diff;
               (events, result) = generate h openaiApiKey code inputBoxValue
           in [WithProgress ''Generating commit message...''] @ events @
              (case result of
                 Throws \<Rightarrow> catchBlock
               | Returns _ \<Rightarrow>
                   if length diff > 8000 then [ShowWarningMessage truncationWarning] else [])))"

text \<open>Lines 435-448: the repository and its SCM repository.\<close>

definition resolveRepository :: "host \<Rightarrow> event list \<times> Repository option" where
  "resolveRepository h =
     (case repoPath h of
        Some p \<Rightarrow> ([GetRepository p], getRepository h p)
      | None \<Rightarrow> ([GetBestRepositoryOrShow ''Generate Commit Message''], bestRepository h))"

definition withRepository :: "host \<Rightarrow> string \<Rightarrow> event list" where
  "withRepository h openaiApiKey =
     (let (events, repository) = resolveRepository h
      in events @
         (case repository of
            None \<Rightarrow> []
          | Some repository \<Rightarrow>
              [GetScmRepository (path repository)] @
              (case scmInputBoxValue h (path repository) of
                 None \<Rightarrow> []
               | Some inputBoxValue \<Rightarrow> tryBlock h openaiApiKey repository inputBoxValue)))"

text \<open>\<^verbatim>\<open>execute\<close>, lines 415-509.\<close>

definition keyMissing :: "string option \<Rightarrow> bool" where
  "keyMissing k = (k = None \<or> k = Some [])"

definition execute :: "host \<Rightarrow> event list" where
  "execute h =
     [GetSecret ''gitlens.openai.key''] @
     (if keyMissing (storedSecret h) then
        [ShowInputBox ''Please enter your OpenAI API key to use this feature''
           ''Enter your OpenAI API key''] @
        (let result = showInputBox (enteredValues h)
         in if keyMissing result then []
            else [StoreSecret ''gitlens.openai.key'' (the result)] @
                 withRepository h (the result))
      else withRepository h (the (storedSecret h)))"

text \<open>
  The key the command goes on with after lines 418-433 (none when the prompt was dismissed),
  and the events up to there.
\<close>

definition apiKey :: "host \<Rightarrow> string option" where
  "apiKey h =
     (if keyMissing (storedSecret h) then
        (if keyMissing (showInputBox (enteredValues h)) then None
         else showInputBox (enteredValues h))
      else storedSecret h)"

definition keyEvents :: "host \<Rightarrow> event list" where
  "keyEvents h =
     [GetSecret ''gitlens.openai.key''] @
     (if keyMissing (storedSecret h) then
        [ShowInputBox ''Please enter your OpenAI API key to use this feature''
           ''Enter your OpenAI API key''] @
        (case apiKey h of None \<Rightarrow> [] | Some k \<Rightarrow> [StoreSecret ''gitlens.openai.key'' k])
      else [])"

text \<open>
  The run reaches the \<^verbatim>\<open>try\<close> block of line 450 with this key, repository and value of the
  input box; and the events up to there.
\<close>

definition reachesTryBlock :: "host \<Rightarrow> string \<Rightarrow> Repository \<Rightarrow> string \<Rightarrow> bool" where
  "reachesTryBlock h key repository inputBoxValue =
     (apiKey h = Some key \<and> snd (resolveRepository h) = Some repository \<and>
      scmInputBoxValue h (path repository) = Some inputBoxValue)"

definition eventsBeforeTry :: "host \<Rightarrow> Repository \<Rightarrow> event list" where
  "eventsBeforeTry h repository =
     keyEvents h @ fst (resolveRepository h) @ [GetScmRepository (path repository)]"

text \<open>The kinds of event the claims speak of.\<close>

fun isLoggerError :: "event \<Rightarrow> bool" where
  "isLoggerError (LoggerError m) = True"
| "isLoggerError e = False"

fun isSetInputBoxValue :: "event \<Rightarrow> bool" where
  "isSetInputBoxValue (SetInputBoxValue v) = True"
| "isSetInputBoxValue e = False"

section \<open>The search wizard\<close>

text \<open>
  The model of \<^verbatim>\<open>SearchGitCommand.steps\<close> and \<^verbatim>\<open>pickSearchOperatorStep\<close>. The search
  pattern object is \<open>SearchPattern pattern matchAll matchCase matchRegex\<close>.
\<close>

datatype SearchPattern = SearchPattern string "bool option" "bool option" "bool option"

datatype repo_ref = RepoPath string | RepoObject Repository

datatype sidebar = SideBarBoolean bool | SideBarNode nat

datatype 'a StepResult = Break | Picked 'a

record StepState =
  counter :: int
  repo :: "repo_ref option"
  pattern :: "string option"
  matchAll :: "bool option"
  matchCase :: "bool option"
  matchRegex :: "bool option"
  showResultsInSideBar :: "sidebar option"
  openPickInView :: "bool option"

text \<open>
  A results promise is the one a query returned, or the one \<^verbatim>\<open>onDidLoadMore\<close> made of a
  log (line 195).
\<close>

datatype promise = QueryPromise Repository SearchPattern | LoadedLog nat

record Context =
  repos :: "Repository list"
  commit :: "nat option"
  resultsKey :: "string option"
  resultsPromise :: "promise option"

datatype wizard_effect =
    SearchForCommits Repository SearchPattern
  | SearchInSideBar string SearchPattern "promise option" "nat option"
  | ShowDetailsView "nat option"

text \<open>
  The functions of \<^verbatim>\<open>QuickCommand\<close> and \<^verbatim>\<open>SearchPattern\<close> that the file calls and that are
  not in it are parameters. \<^verbatim>\<open>canPickStepContinue\<close> and \<^verbatim>\<open>endSteps\<close> are given the state
  and may change its counter: they take the counter and return the new one.
\<close>

record wizard_params =
  canStepsContinue :: "StepState \<Rightarrow> bool"
  canPickStepContinue :: "int \<Rightarrow> string list option \<Rightarrow> bool \<times> int"
  endSteps :: "int \<Rightarrow> int"
  toKey :: "SearchPattern \<Rightarrow> string"


text \<open>
  What the user and the steps that are not in the file answer in one pass of the loop: the
  repository step (the counter it leaves and its result), the changes of value and clicks
  on the toggle buttons while the operator step is open and the selection it is closed with
  (the items selected, or none for a directive), the commit step (the counter it leaves, its
  result and the promise \<^verbatim>\<open>onDidLoadMore\<close> has stored, if any), the steps of the show
  command.
\<close>

datatype picker_event = ChangeValue string | ClickMatchCase | ClickMatchAll | ClickMatchRegex

record interaction =
  repositoryAnswer :: "int \<times> Repository StepResult"
  pickerEvents :: "picker_event list"
  pickerSelection :: "string list option"
  commitAnswer :: "int \<times> nat StepResult \<times> promise option"
  showAnswer :: "unit StepResult"

text \<open>The settings \<^verbatim>\<open>gitCommands.search\<close> and the defaults of lines 110-122.\<close>

record search_settings =
  settingMatchAll :: bool
  settingMatchCase :: bool
  settingMatchRegex :: bool
  settingShowResultsInSideBar :: "bool option"

definition applyDefaults :: "search_settings \<Rightarrow> StepState \<Rightarrow> StepState" where
  "applyDefaults cfg st =
     (let st = (if matchAll st = None then st\<lparr>matchAll := Some (settingMatchAll cfg)\<rparr> else st);
          st = (if matchCase st = None then st\<lparr>matchCase := Some (settingMatchCase cfg)\<rparr> else st);
          st = (if matchRegex st = None then st\<lparr>matchRegex := Some (settingMatchRegex cfg)\<rparr> else st);
          st = (if showResultsInSideBar st = None
                then st\<lparr>showResultsInSideBar :=
                       map_option SideBarBoolean (settingShowResultsInSideBar cfg)\<rparr>
                else st)
      in st)"

text \<open>The truth value of an optional boolean, as \<^verbatim>\<open>!\<close> and \<^verbatim>\<open>if\<close> take it.\<close>

definition truthy :: "bool option \<Rightarrow> bool" where
  "truthy b = (b = Some True)"

definition sidebarTruthy :: "sidebar option \<Rightarrow> bool" where
  "sidebarTruthy s = (case s of None \<Rightarrow> False | Some (SideBarBoolean b) \<Rightarrow> b | Some (SideBarNode n) \<Rightarrow> True)"

text \<open>\<^verbatim>\<open>onDidChangeValue\<close> and \<^verbatim>\<open>onDidClickButton\<close>, lines 334-349, as far as they change the state.\<close>

fun applyPickerEvent :: "picker_event \<Rightarrow> StepState \<Rightarrow> StepState" where
  "applyPickerEvent (ChangeValue v) st = st\<lparr>counter := (if trim v \<noteq> [] then 3 else 2)\<rparr>"
| "applyPickerEvent ClickMatchCase st = st\<lparr>matchCase := Some (\<not> truthy (matchCase st))\<rparr>"
| "applyPickerEvent ClickMatchAll st = st\<lparr>matchAll := Some (\<not> truthy (matchAll st))\<rparr>"
| "applyPickerEvent ClickMatchRegex st = st\<lparr>matchRegex := Some (\<not> truthy (matchRegex st))\<rparr>"

text \<open>
  \<^verbatim>\<open>pickSearchOperatorStep\<close>, lines 273-390, from the moment the step is shown. Reading
  \<^verbatim>\<open>selection[0].item\<close> of a selection without items throws.
\<close>

definition pickSearchOperatorStep ::
  "wizard_params \<Rightarrow> StepState \<Rightarrow> picker_event list \<Rightarrow> string list option
     \<Rightarrow> (StepState \<times> string StepResult) outcome" where
  "pickSearchOperatorStep p st evs selection =
     (let st = fold applyPickerEvent evs st;
          (ok, c) = canPickStepContinue p (counter st) selection
      in if \<not> ok then Returns (st\<lparr>counter := c - 1\<rparr>, Break)
         else (case selection of
                 Some (item # others) \<Rightarrow> Returns (st\<lparr>counter := c - 1\<rparr>, Picked (trim item))
               | _ \<Rightarrow> Throws))"

text \<open>One pass of the loop of lines 126-268, in its parts.\<close>

datatype pass =
    Continue Context StepState bool "wizard_effect list"
  | Leave Context StepState "wizard_effect list"
  | PassThrows

text \<open>Lines 129-145: the repository.\<close>

definition pickRepository ::
  "Context \<Rightarrow> StepState \<Rightarrow> interaction \<Rightarrow> StepState \<times> (bool \<times> Repository) StepResult" where
  "pickRepository ctx st i =
     (if length (repos ctx) = 1 then
        (let st = (if repo st = None then st\<lparr>counter := counter st + 1\<rparr> else st)
         in (st\<lparr>repo := Some (RepoObject (repos ctx ! 0))\<rparr>, Picked (True, repos ctx ! 0)))
      else
        (case repositoryAnswer i of
           (c, Break) \<Rightarrow> (st\<lparr>counter := c\<rparr>, Break)
         | (c, Picked r) \<Rightarrow>
             (st\<lparr>counter := c, repo := Some (RepoObject r)\<rparr>, Picked (False, r))))"

definition repositoryPart ::
  "Context \<Rightarrow> StepState \<Rightarrow> bool \<Rightarrow> interaction
     \<Rightarrow> StepState \<times> (bool \<times> Repository) StepResult" where
  "repositoryPart ctx st skippedStepOne i =
     (case repo st of
        Some (RepoObject r) \<Rightarrow>
          if counter st < 1 then pickRepository ctx st i else (st, Picked (skippedStepOne, r))
      | _ \<Rightarrow> pickRepository ctx st i)"

text \<open>
  Lines 163-174: the search pattern object, its key, and the query, issued or not.
\<close>

definition searchOf :: "StepState \<Rightarrow> string \<Rightarrow> SearchPattern" where
  "searchOf st pt = SearchPattern pt (matchAll st) (matchCase st) (matchRegex st)"

definition searchPart ::
  "wizard_params \<Rightarrow> Context \<Rightarrow> Repository \<Rightarrow> SearchPattern \<Rightarrow> Context \<times> wizard_effect list" where
  "searchPart p ctx r search =
     (let searchKey = toKey p search
      in if resultsPromise ctx = None \<or> resultsKey ctx \<noteq> Some searchKey then
           (ctx\<lparr>resultsPromise := Some (QueryPromise r search), resultsKey := Some searchKey\<rparr>,
            [SearchForCommits r search])
         else (ctx, []))"

text \<open>Lines 176-267: the side bar, the commit step and the show command.\<close>

definition afterSearch ::
  "wizard_params \<Rightarrow> Context \<Rightarrow> StepState \<Rightarrow> bool \<Rightarrow> Repository \<Rightarrow> SearchPattern \<Rightarrow> interaction
     \<Rightarrow> wizard_effect list \<Rightarrow> pass" where
  "afterSearch p ctx st skippedStepOne r search i effects =
     (if sidebarTruthy (showResultsInSideBar st) then
        Leave ctx st
          (effects @
           [SearchInSideBar (path r) search (resultsPromise ctx)
              (case showResultsInSideBar st of Some (SideBarNode n) \<Rightarrow> Some n | _ \<Rightarrow> None)])
      else
        (let commitPicked =
               (if counter st < 3 \<or> commit ctx = None then
                  (case commitAnswer i of
                     (c, result, loaded) \<Rightarrow>
                       (let ctx = (case loaded of
                                     None \<Rightarrow> ctx
                                   | Some pr \<Rightarrow> ctx\<lparr>resultsPromise := Some pr\<rparr>)
                        in case result of
                             Break \<Rightarrow> (ctx, st\<lparr>counter := c - 1\<rparr>, False)
                           | Picked cm \<Rightarrow> (ctx\<lparr>commit := Some cm\<rparr>, st\<lparr>counter := c\<rparr>, True)))
                else (ctx, st, True))
         in case commitPicked of
              (ctx, st, False) \<Rightarrow> Continue ctx st skippedStepOne effects
            | (ctx, st, True) \<Rightarrow>
                (let (result, effects) =
                       (if truthy (openPickInView st)
                        then (Break, effects @ [ShowDetailsView (commit ctx)])
                        else (showAnswer i, effects));
                     st = st\<lparr>counter := counter st - 1\<rparr>;
                     st = (if result = Break then st\<lparr>counter := endSteps p (counter st)\<rparr> else st)
                 in Continue ctx st skippedStepOne effects)))"

text \<open>Lines 147-174: the operator step, when it is entered, and what follows a pattern.\<close>

definition withPattern ::
  "wizard_params \<Rightarrow> Context \<Rightarrow> StepState \<Rightarrow> bool \<Rightarrow> Repository \<Rightarrow> string \<Rightarrow> interaction
     \<Rightarrow> pass" where
  "withPattern p ctx st skippedStepOne r pt i =
     (let search = searchOf st pt;
          (ctx, effects) = searchPart p ctx r search
      in afterSearch p ctx st skippedStepOne r search i effects)"

definition operatorPart ::
  "wizard_params \<Rightarrow> Context \<Rightarrow> StepState \<Rightarrow> bool \<Rightarrow> Repository \<Rightarrow> interaction \<Rightarrow> pass" where
  "operatorPart p ctx st skippedStepOne r i =
     (case pickSearchOperatorStep p st (pickerEvents i) (pickerSelection i) of
        Throws \<Rightarrow> PassThrows
      | Returns (st, Break) \<Rightarrow>
          (let st = (if skippedStepOne then st\<lparr>counter := counter st - 1\<rparr> else st)
           in Continue ctx (st\<lparr>pattern := None\<rparr>) skippedStepOne [])
      | Returns (st, Picked result) \<Rightarrow>
          withPattern p ctx (st\<lparr>pattern := Some result\<rparr>) skippedStepOne r result i)"

text \<open>The pass: lines 126-268.\<close>

definition loopPass ::
  "wizard_params \<Rightarrow> Context \<Rightarrow> StepState \<Rightarrow> bool \<Rightarrow> interaction \<Rightarrow> pass" where
  "loopPass p ctx st skippedStepOne i =
     (case repositoryPart ctx st skippedStepOne i of
        (st, Break) \<Rightarrow> Leave ctx st []
      | (st, Picked (skippedStepOne, r)) \<Rightarrow>
          (case pattern st of
             None \<Rightarrow> operatorPart p ctx st skippedStepOne r i
           | Some pt \<Rightarrow>
               if counter st < 2 then operatorPart p ctx st skippedStepOne r i
               else withPattern p ctx st skippedStepOne r pt i))"

text \<open>
  The loop and the return of line 270. The generator is suspended when it needs an answer
  that has not come yet.
\<close>

datatype run =
    Suspended "wizard_effect list"
  | Returned "unit StepResult option" StepState "wizard_effect list"
  | RunThrows

fun stepsLoop ::
  "wizard_params \<Rightarrow> Context \<Rightarrow> StepState \<Rightarrow> bool \<Rightarrow> wizard_effect list \<Rightarrow> interaction list \<Rightarrow> run" where
  "stepsLoop p ctx st skippedStepOne done [] =
     (if canStepsContinue p st then Suspended done
      else Returned (if counter st < 0 then Some Break else None) st done)"
| "stepsLoop p ctx st skippedStepOne done (i # rest) =
     (if canStepsContinue p st then
        (case loopPass p ctx st skippedStepOne i of
           Continue ctx' st' skipped' effects \<Rightarrow> stepsLoop p ctx' st' skipped' (done @ effects) rest
         | Leave ctx' st' effects \<Rightarrow>
             Returned (if counter st' < 0 then Some Break else None) st' (done @ effects)
         | PassThrows \<Rightarrow> RunThrows)
      else Returned (if counter st < 0 then Some Break else None) st done)"

definition steps ::
  "wizard_params \<Rightarrow> Repository list \<Rightarrow> search_settings \<Rightarrow> StepState \<Rightarrow> interaction list \<Rightarrow> run" where
  "steps p openRepos cfg st answers =
     stepsLoop p \<lparr>repos = openRepos, commit = None, resultsKey = None, resultsPromise = None\<rparr>
       (applyDefaults cfg st) False [] answers"

text \<open>The queries among the effects, and the effects of a pass and of a run.\<close>

fun issuedQueries :: "wizard_effect list \<Rightarrow> (Repository \<times> SearchPattern) list" where
  "issuedQueries [] = []"
| "issuedQueries (SearchForCommits r s # es) = (r, s) # issuedQueries es"
| "issuedQueries (e # es) = issuedQueries es"

fun passEffects :: "pass \<Rightarrow> wizard_effect list" where
  "passEffects (Continue ctx st skippedStepOne es) = es"
| "passEffects (Leave ctx st es) = es"
| "passEffects PassThrows = []"

fun runEffects :: "run \<Rightarrow> wizard_effect list" where
  "runEffects (Suspended es) = es"
| "runEffects (Returned r st es) = es"
| "runEffects RunThrows = []"

text \<open>
  For the proofs: what a pass may do to the key and the promise of the context, given the
  queries it issues; and the context agreeing with the queries issued so far.
\<close>

definition queryStep ::
  "wizard_params \<Rightarrow> Context \<Rightarrow> Context \<Rightarrow> (Repository \<times> SearchPattern) list \<Rightarrow> bool" where
  "queryStep p ctx ctx' qs =
     (case qs of
        [] \<Rightarrow> resultsKey ctx' = resultsKey ctx \<and>
              (resultsPromise ctx' = None) \<le> (resultsPromise ctx = None)
      | [(r, s)] \<Rightarrow>
          (resultsPromise ctx = None \<or> resultsKey ctx \<noteq> Some (toKey p s)) \<and>
          resultsKey ctx' = Some (toKey p s) \<and> resultsPromise ctx' \<noteq> None
      | _ \<Rightarrow> False)"

definition agrees ::
  "wizard_params \<Rightarrow> Context \<Rightarrow> (Repository \<times> SearchPattern) list \<Rightarrow> bool" where
  "agrees p ctx qs =
     (if qs = [] then resultsKey ctx = None
      else resultsPromise ctx \<noteq> None \<and> resultsKey ctx = Some (toKey p (snd (last qs))))"

section \<open>The claims in the words of the specification\<close>

text \<open>
  The score and the order as the specification words them, to be compared with the code.
\<close>

definition spec_reasonBonus :: "string list \<Rightarrow> int" where
  "spec_reasonBonus rs =
     (if ''author'' \<in> set rs then 1000
      else if ''assignee'' \<in> set rs then 900
      else if ''reviewer'' \<in> set rs then 800
      else if ''mentioned'' \<in> set rs then 700
      else 0)"

definition spec_reviewBonus :: "PullRequest \<Rightarrow> int" where
  "spec_reviewBonus p =
     (if reviewDecision p = Some Approved \<and> mergeableState p = Some Mergeable then 100
      else if reviewDecision p = Some Approved \<and> mergeableState p = Some Conflicting then 90
      else if reviewDecision p = Some Approved then 80
      else if reviewDecision p = Some ChangesRequested then 70
      else 0)"

definition spec_score :: "SearchedPullRequest \<Rightarrow> int" where
  "spec_score pr = spec_reasonBonus (reasons pr) + spec_reviewBonus (pullRequest pr)"

definition spec_displayedBefore :: "SearchedPullRequest \<Rightarrow> SearchedPullRequest \<Rightarrow> bool" where
  "spec_displayedBefore a b =
     (spec_score a > spec_score b \<or>
      (spec_score a = spec_score b \<and> date (pullRequest a) \<le> date (pullRequest b)))"

definition spec_sortByScore :: "SearchedPullRequest list \<Rightarrow> SearchedPullRequest list" where
  "spec_sortByScore prs = sort_key (\<lambda>pr. (- spec_score pr, date (pullRequest pr))) prs"

definition spec_sortIssuesByScore :: "SearchedIssue list \<Rightarrow> SearchedIssue list" where
  "spec_sortIssuesByScore is = sort_key (\<lambda>i. - spec_reasonBonus (issueReasons i)) is"

text \<open>
  The variables of one column colour as the specification lists them: the colour under two
  names, four background mixes and two opacity variants.
\<close>

definition spec_columnVariables :: "theme \<Rightarrow> string \<Rightarrow> nat \<Rightarrow> CssVariables" where
  "spec_columnVariables th color i =
     [(''--graph-color-'' @ toString i, color),
      (''--column-'' @ toString i @ ''-color'', color),
      (''--graph-color-'' @ toString i @ ''-bg15'', mix th (bgColor th) color 15),
      (''--graph-color-'' @ toString i @ ''-bg25'', mix th (bgColor th) color 25),
      (''--graph-color-'' @ toString i @ ''-bg45'', mix th (bgColor th) color 45),
      (''--graph-color-'' @ toString i @ ''-bg50'', mix th (bgColor th) color 50),
      (''--graph-color-'' @ toString i @ ''-f10'', opacity th color 10),
      (''--graph-color-'' @ toString i @ ''-f50'', opacity th color 50)]"

section \<open>Concrete inputs\<close>

definition example_prs :: "SearchedPullRequest list" where
  "example_prs =
     [\<lparr>pullRequest = \<lparr>prId = ''1'', date = 50, reviewDecision = None, mergeableState = None\<rparr>,
        reasons = [''mentioned'']\<rparr>,
      \<lparr>pullRequest = \<lparr>prId = ''2'', date = 40, reviewDecision = Some Approved,
          mergeableState = Some Conflicting\<rparr>, reasons = [''reviewer'', ''author'']\<rparr>,
      \<lparr>pullRequest = \<lparr>prId = ''3'', date = 30, reviewDecision = None, mergeableState = None\<rparr>,
        reasons = []\<rparr>,
      \<lparr>pullRequest = \<lparr>prId = ''4'', date = 20, reviewDecision = Some ChangesRequested,
          mergeableState = Some Mergeable\<rparr>, reasons = [''assignee'']\<rparr>,
      \<lparr>pullRequest = \<lparr>prId = ''5'', date = 10, reviewDecision = None, mergeableState = None\<rparr>,
        reasons = [''mentioned'']\<rparr>]"

definition example_issues :: "SearchedIssue list" where
  "example_issues =
     [\<lparr>issue = \<lparr>issueId = ''7'', updatedDate = 100\<rparr>, issueReasons = [''author'']\<rparr>,
      \<lparr>issue = \<lparr>issueId = ''8'', updatedDate = 200\<rparr>, issueReasons = [''mentioned'']\<rparr>,
      \<lparr>issue = \<lparr>issueId = ''9'', updatedDate = 300\<rparr>, issueReasons = []\<rparr>]"

definition example_environment :: environment where
  "example_environment =
     \<lparr>openRepositories = [0, 1, 2],
      getRichRemote = (\<lambda>r. if r = 0 then Some 10 else if r = 1 then Some 10 else None),
      gitGetMyPullRequests = (\<lambda>p. if p = 10 then Some example_prs else None),
      gitGetMyIssues = (\<lambda>p. if p = 10 then Some example_issues else None)\<rparr>"

definition empty_webview :: webview where
  "empty_webview = \<lparr>pullRequests_cache = [], issues_cache = []\<rparr>"






definition example_theme :: theme where
  "example_theme =
     \<lparr>bgColor = ''#000000'',
      mix = (\<lambda>a b n. ''mix('' @ a @ '','' @ b @ '','' @ toString n @ '')''),
      opacity = (\<lambda>c n. c @ ''/'' @ toString n)\<rparr>"

definition bootstrap_app :: "(nat list, nat, unit, unit, nat) GraphApp" where
  "bootstrap_app =
     \<lparr>state = \<lparr>commits = [], log = 0, config = None, mixedColumnColors = None,
                otherFields = ()\<rparr>,
      callback = None\<rparr>"

definition example_key :: string where
  "example_key = ''sk-'' @ replicate 32 CHR ''a''"

definition entered_value :: string where
  "entered_value = ''my '' @ example_key @ ''!''"

definition example_repository :: Repository where
  "example_repository = \<lparr>path = ''/repo'', uri = ''file:///repo''\<rparr>"

definition ok_response :: response where
  "ok_response =
     \<lparr>ok = True, status = 200, statusText = ''OK'',
      json = Returns [CHR 0xA0 # '' Fix the thing\<newline>'', ''other'']\<rparr>"

definition example_host :: host where
  "example_host =
     \<lparr>storedSecret = None,
      enteredValues = [''nokey'', entered_value],
      repoPath = None,
      getRepository = (\<lambda>p. None),
      bestRepository = Some example_repository,
      scmInputBoxValue = (\<lambda>p. if p = ''/repo'' then Some ''WIP'' else None),
      getDiff = (\<lambda>u. Returns (Some (replicate 8001 CHR ''x''))),
      fetch = (\<lambda>rq. Returns ok_response)\<rparr>"

definition dismissing_host :: host where
  "dismissing_host = example_host\<lparr>enteredValues := [''nokey'', ''sk-short'']\<rparr>"

definition throwing_host :: host where
  "throwing_host = example_host\<lparr>storedSecret := Some example_key, fetch := (\<lambda>rq. Throws)\<rparr>"

definition no_diff_host :: host where
  "no_diff_host =
     example_host\<lparr>storedSecret := Some example_key, getDiff := (\<lambda>u. Returns None)\<rparr>"

definition refused_host :: host where
  "refused_host =
     example_host\<lparr>storedSecret := Some example_key,
       fetch := (\<lambda>rq. Returns \<lparr>ok = False, status = 401, statusText = ''Unauthorized'',
                                   json = Throws\<rparr>)\<rparr>"

definition diff_throwing_host :: host where
  "diff_throwing_host =
     example_host\<lparr>storedSecret := Some example_key, getDiff := (\<lambda>u. Throws)\<rparr>"

definition empty_choices_host :: host where
  "empty_choices_host =
     example_host\<lparr>storedSecret := Some example_key,
       fetch := (\<lambda>rq. Returns \<lparr>ok = True, status = 200, statusText = ''OK'',
                                   json = Returns []\<rparr>)\<rparr>"

definition example_toKey :: "SearchPattern \<Rightarrow> string" where
  "example_toKey s =
     (case s of SearchPattern pt a c r \<Rightarrow>
        pt @ ''|'' @ (if truthy a then ''A'' else []) @ (if truthy c then ''C'' else []) @
        (if truthy r then ''R'' else []))"

definition example_params :: wizard_params where
  "example_params =
     \<lparr>canStepsContinue = (\<lambda>st. 0 \<le> counter st),
      canPickStepContinue =
        (\<lambda>c selection. case selection of None \<Rightarrow> (False, c - 1) | Some items \<Rightarrow> (True, c + 1)),
      endSteps = (\<lambda>c. - 1),
      toKey = example_toKey\<rparr>"

definition example_settings :: search_settings where
  "example_settings =
     \<lparr>settingMatchAll = False, settingMatchCase = False, settingMatchRegex = True,
      settingShowResultsInSideBar = None\<rparr>"

definition fresh_state :: StepState where
  "fresh_state =
     \<lparr>counter = 0, repo = None, pattern = None, matchAll = None, matchCase = None,
      matchRegex = None, showResultsInSideBar = None, openPickInView = None\<rparr>"

definition cancel_operator :: interaction where
  "cancel_operator =
     \<lparr>repositoryAnswer = (0, Break), pickerEvents = [ChangeValue ''''], pickerSelection = None,
      commitAnswer = (0, Break, None), showAnswer = Break\<rparr>"

definition search_then_back :: "string \<Rightarrow> picker_event list \<Rightarrow> interaction" where
  "search_then_back typed clicks =
     \<lparr>repositoryAnswer = (0, Break), pickerEvents = ChangeValue typed # clicks,
      pickerSelection = Some [typed], commitAnswer = (2, Break, Some (LoadedLog 7)),
      showAnswer = Break\<rparr>"

definition single_context :: Context where
  "single_context =
     \<lparr>repos = [example_repository], commit = None, resultsKey = None, resultsPromise = None\<rparr>"

definition defaulted_state :: StepState where
  "defaulted_state = applyDefaults example_settings fresh_state"

definition skipped_state :: StepState where
  "skipped_state = defaulted_state\<lparr>counter := 1, repo := Some (RepoObject example_repository)\<rparr>"

section \<open>Verified properties\<close>

subsection \<open>Sorting\<close>

lemma array_insert_insort_key:
  assumes "\<And>a b. (cmp a b \<le> 0) = (f a \<le> f b)"
  shows "array_insert cmp x ys = insort_key f x ys"
  by (induction ys) (simp_all add: assms)

lemma array_sort_sort_key:
  assumes "\<And>a b. (cmp a b \<le> 0) = (f a \<le> f b)"
  shows "array_sort cmp xs = sort_key f xs"
  by (induction xs) (simp_all add: array_sort_def array_insert_insort_key[OF assms])

lemma getScore_spec_score: "getScore pr = spec_score pr"
  by (simp add: getScore_def spec_score_def spec_reasonBonus_def spec_reviewBonus_def Let_def)

lemma comparePullRequests_key:
  "(comparePullRequests a b \<le> 0) =
     ((- spec_score a, date (pullRequest a)) \<le> (- spec_score b, date (pullRequest b)))"
  by (auto simp: comparePullRequests_def getScore_spec_score Let_def less_eq_prod_def)

lemma sort_pull_requests: "array_sort comparePullRequests prs = spec_sortByScore prs"
  unfolding spec_sortByScore_def by (rule array_sort_sort_key) (rule comparePullRequests_key)

lemma spec_displayedBefore_key:
  "spec_displayedBefore a b =
     ((- spec_score a, date (pullRequest a)) \<le> (- spec_score b, date (pullRequest b)))"
  by (auto simp: spec_displayedBefore_def less_eq_prod_def)

lemma sorted_spec_sortByScore: "sorted_wrt spec_displayedBefore (spec_sortByScore prs)"
proof -
  have "sorted (map (\<lambda>pr. (- spec_score pr, date (pullRequest pr))) (spec_sortByScore prs))"
    unfolding spec_sortByScore_def by (rule sorted_sort_key)
  then show ?thesis
    by (simp add: sorted_map spec_displayedBefore_key[abs_def])
qed

lemma getMyPullRequests_empty:
  "pullRequests_cache w = [] \<Longrightarrow>
   fst (snd (getMyPullRequests env w)) =
     array_sort comparePullRequests
       (collectReasoned (gitGetMyPullRequests env) reasons (snd (getRichRepos env)) [])"
  by (simp add: getMyPullRequests_def Let_def split: prod.splits)

lemma getState_pullRequests:
  "pullRequests (fst (snd (getState sp si env w))) =
     map (\<lambda>pr. (sp (pullRequest pr), reasons pr)) (fst (snd (getMyPullRequests env w)))"
  by (simp add: getState_def Let_def split: prod.splits)

lemma getState_issues:
  "issues (fst (snd (getState sp si env w))) =
     map (\<lambda>i. (si (issue i), issueReasons i))
       (fst (snd (getMyIssues env (snd (snd (getMyPullRequests env w))))))"
  by (simp add: getState_def Let_def split: prod.splits)

text \<open>
  Claim C1. When the pull requests are fetched, the list the webview displays is the fetched
  list (those with a reason) sorted by descending score, pull requests of equal score by
  ascending date; the score is the bonus of the first reason that applies in the order
  author 1000, assignee 900, reviewer 800, mentioned 700, plus the review bonus 100, 90, 80
  (approved and mergeable, conflicting, otherwise) or 70 (changes requested).
\<close>

theorem pull_requests_displayed_by_score:
  assumes "pullRequests_cache w = []"
  shows "getScore pr = spec_score pr \<and>
         fst (snd (getMyPullRequests env w)) =
           spec_sortByScore
             (collectReasoned (gitGetMyPullRequests env) reasons (snd (getRichRepos env)) []) \<and>
         sorted_wrt spec_displayedBefore (fst (snd (getMyPullRequests env w))) \<and>
         mset (fst (snd (getMyPullRequests env w))) =
           mset (collectReasoned (gitGetMyPullRequests env) reasons (snd (getRichRepos env)) []) \<and>
         pullRequests (fst (snd (getState sp si env w))) =
           map (\<lambda>pr. (sp (pullRequest pr), reasons pr))
             (spec_sortByScore
               (collectReasoned (gitGetMyPullRequests env) reasons (snd (getRichRepos env)) []))"
proof -
  let ?fetched = "collectReasoned (gitGetMyPullRequests env) reasons (snd (getRichRepos env)) []"
  have r: "fst (snd (getMyPullRequests env w)) = spec_sortByScore ?fetched"
    using assms by (simp add: getMyPullRequests_empty sort_pull_requests)
  have m: "mset (spec_sortByScore ?fetched) = mset ?fetched"
    by (simp add: spec_sortByScore_def)
  show ?thesis
    by (simp only: r m getScore_spec_score sorted_spec_sortByScore getState_pullRequests simp_thms)
qed

theorem pull_requests_displayed_by_score_witness:
  "pullRequests_cache empty_webview = [] \<and>
   map (prId \<circ> pullRequest) (fst (snd (getMyPullRequests example_environment empty_webview))) =
     [''2'', ''4'', ''5'', ''1''] \<and>
   sorted_wrt spec_displayedBefore (fst (snd (getMyPullRequests example_environment empty_webview)))"
proof -
  have h: "pullRequests_cache empty_webview = []" by (simp add: empty_webview_def)
  have v: "map (prId \<circ> pullRequest) (fst (snd (getMyPullRequests example_environment empty_webview))) =
     [''2'', ''4'', ''5'', ''1'']"
    by (simp add: getMyPullRequests_def empty_webview_def example_environment_def getRichRepos_def
        example_prs_def array_sort_def comparePullRequests_def getScore_def)
  have s: "sorted_wrt spec_displayedBefore
      (fst (snd (getMyPullRequests example_environment empty_webview)))"
    using pull_requests_displayed_by_score [OF h, of "hd example_prs" example_environment id id]
    by blast
  show ?thesis using h v s by blast
qed

lemma compareIssues_key:
  "(compareIssues a b \<le> 0) = (- updatedDate (issue a) \<le> - updatedDate (issue b))"
  by (auto simp: compareIssues_def)

lemma sort_issues:
  "array_sort compareIssues is = sort_key (\<lambda>i. - updatedDate (issue i)) is"
  by (rule array_sort_sort_key) (rule compareIssues_key)

lemma collectReasoned_set:
  "set (collectReasoned f rs rps acc) \<subseteq> set acc \<union> {x. rs x \<noteq> []}"
proof (induction rps arbitrary: acc)
  case Nil
  show ?case by simp
next
  case (Cons rp rps)
  obtain r0 provider where rp: "rp = (r0, provider)" by (cases rp)
  show ?case
  proof (cases "f provider")
    case None
    with Cons.IH [of acc] rp show ?thesis by simp
  next
    case (Some prs)
    with Cons.IH [of "acc @ filter (\<lambda>pr. length (rs pr) > 0) prs"] rp show ?thesis by auto
  qed
qed

lemma getMyIssues_empty:
  "issues_cache w = [] \<Longrightarrow>
   fst (snd (getMyIssues env w)) =
     array_sort compareIssues
       (collectReasoned (gitGetMyIssues env) issueReasons (snd (getRichRepos env)) [])"
  by (simp add: getMyIssues_def Let_def split: prod.splits)

lemma getMyPullRequests_issues_cache:
  "issues_cache (snd (snd (getMyPullRequests env w))) = issues_cache w"
  by (simp add: getMyPullRequests_def Let_def split: prod.splits)

text \<open>
  Claim C5, as stated, fails: the issues are not ordered by the score. With an issue the user
  is mentioned in, updated at 200, and an issue the user authored, updated at 100, the webview
  shows the mentioned one first, the score order would show the authored one first.
\<close>

theorem issues_not_displayed_by_score:
  "fst (snd (getMyIssues example_environment empty_webview)) \<noteq>
     spec_sortIssuesByScore
       (collectReasoned (gitGetMyIssues example_environment) issueReasons
          (snd (getRichRepos example_environment)) [])"
  by (simp add: getMyIssues_def empty_webview_def example_environment_def getRichRepos_def
      example_issues_def array_sort_def compareIssues_def spec_sortIssuesByScore_def
      spec_reasonBonus_def)

text \<open>
  Claim C5, amended. When the issues are fetched, the list the webview displays is the fetched
  issues that have at least one reason, sorted by descending update date (the most recently
  updated first, issues of equal date in fetch order); no score is involved.
\<close>

theorem issues_displayed_by_updated_date:
  assumes "issues_cache w = []"
  shows "fst (snd (getMyIssues env w)) =
           sort_key (\<lambda>i. - updatedDate (issue i))
             (collectReasoned (gitGetMyIssues env) issueReasons (snd (getRichRepos env)) []) \<and>
         sorted_wrt (\<lambda>a b. updatedDate (issue b) \<le> updatedDate (issue a))
           (fst (snd (getMyIssues env w))) \<and>
         mset (fst (snd (getMyIssues env w))) =
           mset (collectReasoned (gitGetMyIssues env) issueReasons (snd (getRichRepos env)) []) \<and>
         [] \<notin> issueReasons ` set (fst (snd (getMyIssues env w))) \<and>
         issues (fst (snd (getState sp si env w))) =
           map (\<lambda>i. (si (issue i), issueReasons i)) (fst (snd (getMyIssues env w)))"
proof -
  let ?fetched = "collectReasoned (gitGetMyIssues env) issueReasons (snd (getRichRepos env)) []"
  let ?sorted = "sort_key (\<lambda>i. - updatedDate (issue i)) ?fetched"
  have r: "fst (snd (getMyIssues env w)) = ?sorted"
    using assms by (simp add: getMyIssues_empty sort_issues)
  have "sorted (map (\<lambda>i. - updatedDate (issue i)) ?sorted)"
    by (rule sorted_sort_key)
  then have s: "sorted_wrt (\<lambda>a b. updatedDate (issue b) \<le> updatedDate (issue a)) ?sorted"
    by (simp add: sorted_map)
  have m: "mset ?sorted = mset ?fetched" by simp
  have "set ?sorted \<subseteq> {x. issueReasons x \<noteq> []}"
    using collectReasoned_set [of "gitGetMyIssues env" issueReasons "snd (getRichRepos env)" "[]"]
    by simp
  then have f: "[] \<notin> issueReasons ` set ?sorted" by force
  have w1: "issues_cache (snd (snd (getMyPullRequests env w))) = []"
    using assms by (simp add: getMyPullRequests_issues_cache)
  have g: "issues (fst (snd (getState sp si env w))) =
      map (\<lambda>i. (si (issue i), issueReasons i)) ?sorted"
    by (simp add: getState_issues getMyIssues_empty [OF w1] sort_issues)
  show ?thesis
    unfolding r using s m f g by blast
qed

theorem issues_displayed_by_updated_date_witness:
  "issues_cache empty_webview = [] \<and>
   map (issueId \<circ> issue) (fst (snd (getMyIssues example_environment empty_webview))) =
     [''8'', ''7'']"
proof -
  have h: "issues_cache empty_webview = []" by (simp add: empty_webview_def)
  have v: "map (issueId \<circ> issue)
      (sort_key (\<lambda>i. - updatedDate (issue i))
         (collectReasoned (gitGetMyIssues example_environment) issueReasons
            (snd (getRichRepos example_environment)) [])) = [''8'', ''7'']"
    by (simp add: example_environment_def getRichRepos_def example_issues_def)
  have "fst (snd (getMyIssues example_environment empty_webview)) =
      sort_key (\<lambda>i. - updatedDate (issue i))
        (collectReasoned (gitGetMyIssues example_environment) issueReasons
           (snd (getRichRepos example_environment)) [])"
    using issues_displayed_by_updated_date [OF h, of example_environment id id] by blast
  with h v show ?thesis by simp
qed

subsection \<open>The caches\<close>

lemma getMyPullRequests_cached:
  "pullRequests_cache w \<noteq> [] \<Longrightarrow> getMyPullRequests env w = ([], pullRequests_cache w, w)"
  by (simp add: getMyPullRequests_def)

lemma getMyIssues_cached:
  "issues_cache w \<noteq> [] \<Longrightarrow> getMyIssues env w = ([], issues_cache w, w)"
  by (simp add: getMyIssues_def)

lemma getState_cached:
  assumes "pullRequests_cache w \<noteq> []" and "issues_cache w \<noteq> []"
  shows "getState sp si env w =
           ([], \<lparr>pullRequests = map (\<lambda>pr. (sp (pullRequest pr), reasons pr)) (pullRequests_cache w),
                 issues = map (\<lambda>i. (si (issue i), issueReasons i)) (issues_cache w)\<rparr>, w)"
  using assms by (simp add: getState_def getMyPullRequests_cached getMyIssues_cached)

lemma getStates_cached:
  assumes "pullRequests_cache w \<noteq> []" and "issues_cache w \<noteq> []"
  shows "getStates sp si envs w =
           (replicate (length envs)
              ([], \<lparr>pullRequests = map (\<lambda>pr. (sp (pullRequest pr), reasons pr)) (pullRequests_cache w),
                    issues = map (\<lambda>i. (si (issue i), issueReasons i)) (issues_cache w)\<rparr>), w)"
  by (induction envs) (simp_all add: getState_cached [OF assms])




















subsection \<open>Decimal digits\<close>

lemma below_ten: "d < 10 \<Longrightarrow> d \<in> {0, 1, 2, 3, 4, 5, 6, 7, 8, 9::nat}"
  by auto

lemma of_char_digit: "d < 10 \<Longrightarrow> digitValue (digit d) = d"
  by (drule below_ten) (auto simp: digit_def digitValue_def)

lemma is_digit_digit: "d < 10 \<Longrightarrow> is_digit (digit d)"
  by (drule below_ten) (auto simp: digit_def is_digit_def)

lemma toString_digits: "\<forall>c \<in> set (toString n). is_digit c"
proof (induction n rule: toString.induct)
  case (1 n)
  show ?case
  proof (cases "n < 10")
    case True
    then show ?thesis by (simp add: toString.simps [of n] is_digit_digit)
  next
    case False
    with 1 show ?thesis by (simp add: toString.simps [of n] is_digit_digit)
  qed
qed

lemma fromString_toString: "fromString (toString n) = n"
proof (induction n rule: toString.induct)
  case (1 n)
  show ?case
  proof (cases "n < 10")
    case True
    then show ?thesis by (simp add: toString.simps [of n] fromString_def of_char_digit)
  next
    case False
    with 1 have "fromString (toString (n div 10)) = n div 10" by simp
    with False show ?thesis
      by (simp add: toString.simps [of n] fromString_def of_char_digit)
  qed
qed

lemma toString_inj: "toString n = toString m \<Longrightarrow> n = m"
  by (metis fromString_toString)

lemma takeWhile_toString:
  "\<not> is_digit c \<Longrightarrow> takeWhile is_digit (toString n @ c # rest) = toString n"
  using toString_digits [of n] by (simp add: takeWhile_append2)

lemma takeWhile_toString_only: "takeWhile is_digit (toString n) = toString n"
  using toString_digits [of n] by simp

lemma toString_values:
  "toString 15 = ''15''" "toString 25 = ''25''" "toString 45 = ''45''" "toString 50 = ''50''"
  "toString 10 = ''10''"
  by (simp_all add: toString.simps digit_def)


subsection \<open>The colour variables\<close>

lemma variableIndex_column:
  "\<forall>k \<in> fst ` set (spec_columnVariables th c i). variableIndex k = i"
  by (simp add: spec_columnVariables_def variableIndex_def takeWhile_toString
      takeWhile_toString_only is_digit_def fromString_toString)

lemma distinct_column: "distinct (map fst (spec_columnVariables th c i))"
  by (simp add: spec_columnVariables_def)

lemma update_fresh: "k \<notin> fst ` set al \<Longrightarrow> AList.update k v al = al @ [(k, v)]"
  by (induction al) auto

lemma setColumnVariables_fresh:
  assumes "fst ` set (spec_columnVariables th (cols ! i) i) \<inter> fst ` set m = {}"
  shows "setColumnVariables th cols i m = m @ spec_columnVariables th (cols ! i) i"
  using assms
  by (simp add: setColumnVariables_def spec_columnVariables_def toString_values update_fresh
      image_Un)


lemma variables_upto_index:
  "k \<in> fst ` set (concat (map (\<lambda>i. spec_columnVariables th (cols ! i) i) [0 ..< n])) \<Longrightarrow>
   variableIndex k < n"
  using variableIndex_column by fastforce

lemma column_fresh:
  "fst ` set (spec_columnVariables th c n) \<inter>
   fst ` set (concat (map (\<lambda>i. spec_columnVariables th (cols ! i) i) [0 ..< n])) = {}"
proof -
  have "False" if a: "k \<in> fst ` set (spec_columnVariables th c n)"
    and b: "k \<in> fst ` set (concat (map (\<lambda>i. spec_columnVariables th (cols ! i) i) [0 ..< n]))"
    for k
  proof -
    from a variableIndex_column have "variableIndex k = n" by blast
    moreover from b have "variableIndex k < n" by (rule variables_upto_index)
    ultimately show False by simp
  qed
  then show ?thesis by blast
qed

lemma fold_setColumnVariables:
  "fold (setColumnVariables th cols) [0 ..< n] [] =
     concat (map (\<lambda>i. spec_columnVariables th (cols ! i) i) [0 ..< n])"
proof (induction n)
  case 0
  show ?case by simp
next
  case (Suc n)
  show ?case
    by (simp add: Suc.IH setColumnVariables_fresh [OF column_fresh])
qed

lemma getGraphColors_columns:
  "getGraphColors th cfg =
     concat (map (\<lambda>i. spec_columnVariables th (configuredColumnColors cfg ! i) i)
               [0 ..< length (configuredColumnColors cfg)])"
  by (simp add: getGraphColors_def Let_def fold_setColumnVariables)

lemma distinct_columns:
  "distinct (map fst (concat (map (\<lambda>i. spec_columnVariables th (cols ! i) i) [0 ..< n])))"
proof (induction n)
  case 0
  show ?case by simp
next
  case (Suc n)
  have "fst ` set (concat (map (\<lambda>i. spec_columnVariables th (cols ! i) i) [0 ..< n])) \<inter>
        fst ` set (spec_columnVariables th (cols ! n) n) = {}"
    using column_fresh [of th "cols ! n" n cols] by blast
  with Suc.IH show ?case
    by (simp add: distinct_column)
qed

lemma length_columns:
  "length (concat (map (\<lambda>i. spec_columnVariables th (cols ! i) i) [0 ..< n])) = 8 * n"
  by (induction n) (simp_all add: spec_columnVariables_def)

lemma setState_mixedColumnColors:
  "mixedColumnColors (state (setState th st app)) =
     Some (case mixedColumnColors st of None \<Rightarrow> getGraphColors th (config st) | Some m \<Rightarrow> m)"
  by (simp add: setState_def split: option.splits)

text \<open>
  Claim C9. After \<^verbatim>\<open>setState\<close> the mixed column colours of the state are not null: a null
  mapping is recomputed from the column colours of the configuration, or from the default
  palette of 8 colours when the configuration has none, and the computed mapping holds, for
  each column colour in turn, exactly the 8 variables of \<open>spec_columnVariables\<close>, all under
  different names.
\<close>

theorem mixed_column_colors_computed:
  "mixedColumnColors (state (setState th st app)) \<noteq> None \<and>
   mixedColumnColors (state (setState th st app)) =
     Some (case mixedColumnColors st of None \<Rightarrow> getGraphColors th (config st) | Some m \<Rightarrow> m) \<and>
   configuredColumnColors cfg =
     (case cfg of None \<Rightarrow> defaultColumnColors
      | Some c \<Rightarrow> (case columnColors c of None \<Rightarrow> defaultColumnColors | Some cs \<Rightarrow> cs)) \<and>
   length defaultColumnColors = 8 \<and>
   getGraphColors th cfg =
     concat (map (\<lambda>i. spec_columnVariables th (configuredColumnColors cfg ! i) i)
               [0 ..< length (configuredColumnColors cfg)]) \<and>
   distinct (map fst (getGraphColors th cfg)) \<and>
   length (getGraphColors th cfg) = 8 * length (configuredColumnColors cfg)"
proof (intro conjI)
  show "mixedColumnColors (state (setState th st app)) \<noteq> None"
    by (simp add: setState_mixedColumnColors)
  show "configuredColumnColors cfg =
     (case cfg of None \<Rightarrow> defaultColumnColors
      | Some c \<Rightarrow> (case columnColors c of None \<Rightarrow> defaultColumnColors | Some cs \<Rightarrow> cs))"
    by (simp add: configuredColumnColors_def)
  show "length defaultColumnColors = 8"
    by (simp add: defaultColumnColors_def)
  show "distinct (map fst (getGraphColors th cfg))"
    by (simp only: getGraphColors_columns distinct_columns)
  show "length (getGraphColors th cfg) = 8 * length (configuredColumnColors cfg)"
    by (simp only: getGraphColors_columns length_columns)
qed (rule setState_mixedColumnColors getGraphColors_columns)+

subsection \<open>Message dispatch\<close>

lemma setState_state:
  "setState th st app =
     app\<lparr>state := st\<lparr>mixedColumnColors :=
            Some (case mixedColumnColors st of None \<Rightarrow> getGraphColors th (config st)
                  | Some m \<Rightarrow> m)\<rparr>\<rparr>"
  by (cases "mixedColumnColors st") (simp_all add: setState_def)

text \<open>
  Claim C6, as stated, fails: on a state whose mixed column colours are still null (the state
  the page starts with), a commits-changed notification changes a third field, because
  \<^verbatim>\<open>setState\<close> computes the colours.
\<close>

theorem commits_changed_not_only_commits_and_log:
  "state (fst (onMessageReceived example_theme
        (DidChangeCommitsNotification [1] 2 :: (nat list, nat, unit, unit, unit) message)
        bootstrap_app)) \<noteq>
   (state bootstrap_app)\<lparr>commits := [1], log := 2\<rparr>"
  by (simp add: setState_def bootstrap_app_def Let_def)

text \<open>
  Claim C6, amended. A commits-changed notification replaces the commits and the log of the
  state with the parameters of the message, computes the mixed column colours from the
  current configuration if they were null and keeps them otherwise, leaves every other field
  as it was, and calls the registered subscriber, if there is one, with the new state. A
  configuration-changed notification replaces the configuration and recomputes the mixed
  column colours from the new configuration, with the same call. A message of any other
  method is handed to the handler of the base class and changes nothing here.
\<close>

theorem messages_dispatched:
  "onMessageReceived th (DidChangeCommitsNotification cs lg) app =
     (app\<lparr>state := (state app)\<lparr>commits := cs, log := lg,
         mixedColumnColors :=
           Some (case mixedColumnColors (state app) of
                   None \<Rightarrow> getGraphColors th (config (state app))
                 | Some m \<Rightarrow> m)\<rparr>\<rparr>,
      case callback app of
        None \<Rightarrow> []
      | Some cb \<Rightarrow>
          [CallbackCalled cb ((state app)\<lparr>commits := cs, log := lg,
             mixedColumnColors :=
               Some (case mixedColumnColors (state app) of
                       None \<Rightarrow> getGraphColors th (config (state app))
                     | Some m \<Rightarrow> m)\<rparr>)]) \<and>
   onMessageReceived th (DidChangeGraphConfigurationNotification cfg) app =
     (app\<lparr>state := (state app)\<lparr>config := cfg,
         mixedColumnColors := Some (getGraphColors th cfg)\<rparr>\<rparr>,
      case callback app of
        None \<Rightarrow> []
      | Some cb \<Rightarrow>
          [CallbackCalled cb ((state app)\<lparr>config := cfg,
             mixedColumnColors := Some (getGraphColors th cfg)\<rparr>)]) \<and>
   onMessageReceived th (OtherMessage m) app = (app, [SuperOnMessageReceived m])"
  by (simp add: setState_state refresh_def Let_def split: option.splits)

subsection \<open>The API key\<close>

lemma matchesAtStart_iff:
  "matchesAtStart s =
     (\<exists>k post. s = ''sk-'' @ k @ post \<and> length k = 32 \<and> list_all alphanumeric k)"
proof
  assume m: "matchesAtStart s"
  have "s = take 3 s @ take 32 (drop 3 s) @ drop 32 (drop 3 s)"
    by (simp only: append_take_drop_id)
  with m show "\<exists>k post. s = ''sk-'' @ k @ post \<and> length k = 32 \<and> list_all alphanumeric k"
    unfolding matchesAtStart_def by metis
next
  assume "\<exists>k post. s = ''sk-'' @ k @ post \<and> length k = 32 \<and> list_all alphanumeric k"
  then show "matchesAtStart s"
    by (auto simp: matchesAtStart_def)
qed

lemma regexTest_iff: "regexTest v = (\<exists>pre rest. v = pre @ rest \<and> matchesAtStart rest)"
proof (induction v)
  case Nil
  show ?case by simp
next
  case (Cons c cs)
  show ?case
  proof
    assume "regexTest (c # cs)"
    then consider "matchesAtStart (c # cs)" | "regexTest cs" by auto
    then show "\<exists>pre rest. c # cs = pre @ rest \<and> matchesAtStart rest"
    proof cases
      case 1
      then show ?thesis by (metis append_Nil)
    next
      case 2
      with Cons.IH obtain pre rest where "cs = pre @ rest" "matchesAtStart rest" by blast
      then show ?thesis by (metis append_Cons)
    qed
  next
    assume "\<exists>pre rest. c # cs = pre @ rest \<and> matchesAtStart rest"
    then obtain pre rest where e: "c # cs = pre @ rest" and m: "matchesAtStart rest" by blast
    show "regexTest (c # cs)"
    proof (cases pre)
      case Nil
      with e have "rest = c # cs" by simp
      with m show ?thesis by simp
    next
      case (Cons p ps)
      with e have "cs = ps @ rest" by simp
      with m Cons.IH show ?thesis by auto
    qed
  qed
qed

lemma not_matchesAtStart_Nil: "\<not> matchesAtStart []"
  by (simp add: matchesAtStart_def)

lemma validateInput_iff:
  "(validateInput v = None) =
     (\<exists>pre k post. v = pre @ ''sk-'' @ k @ post \<and> length k = 32 \<and> list_all alphanumeric k)"
proof -
  have "(validateInput v = None) = regexTest v"
    by (cases v) (simp_all add: validateInput_def not_matchesAtStart_Nil)
  also have "\<dots> = (\<exists>pre rest. v = pre @ rest \<and> matchesAtStart rest)"
    by (rule regexTest_iff)
  also have "\<dots> =
      (\<exists>pre k post. v = pre @ ''sk-'' @ k @ post \<and> length k = 32 \<and> list_all alphanumeric k)"
    unfolding matchesAtStart_iff by blast
  finally show ?thesis .
qed


lemma showInputBox_valid: "showInputBox vs = Some v \<Longrightarrow> v \<in> set vs \<and> validateInput v = None"
  unfolding showInputBox_def by (auto simp: find_Some_iff)

lemma showInputBox_None: "(showInputBox vs = None) = (\<forall>v \<in> set vs. validateInput v \<noteq> None)"
  unfolding showInputBox_def by (auto simp: find_None_iff)

lemma not_keyMissing_valid: "validateInput v = None \<Longrightarrow> \<not> keyMissing (Some v)"
  by (auto simp: validateInput_def keyMissing_def split: if_splits)

lemma apiKey_entered:
  "keyMissing (storedSecret h) \<Longrightarrow> showInputBox (enteredValues h) = Some v \<Longrightarrow>
   apiKey h = Some v"
proof -
  assume k: "keyMissing (storedSecret h)" and s: "showInputBox (enteredValues h) = Some v"
  from s have "validateInput v = None" by (rule showInputBox_valid [THEN conjunct2])
  then have "\<not> keyMissing (Some v)" by (rule not_keyMissing_valid)
  with k s show ?thesis by (simp add: apiKey_def)
qed

lemma execute_keyEvents:
  "execute h =
     keyEvents h @ (case apiKey h of None \<Rightarrow> [] | Some k \<Rightarrow> withRepository h k)"
proof (cases "keyMissing (storedSecret h)")
  case True
  show ?thesis
  proof (cases "keyMissing (showInputBox (enteredValues h))")
    case k: True
    with True show ?thesis by (simp add: execute_def keyEvents_def apiKey_def Let_def)
  next
    case k: False
    then obtain r where "showInputBox (enteredValues h) = Some r"
      by (cases "showInputBox (enteredValues h)") (simp_all add: keyMissing_def)
    with True k show ?thesis by (simp add: execute_def keyEvents_def apiKey_def Let_def)
  qed
next
  case False
  then obtain k where "storedSecret h = Some k"
    by (cases "storedSecret h") (simp_all add: keyMissing_def)
  with False show ?thesis by (simp add: execute_def keyEvents_def apiKey_def)
qed

text \<open>
  Claim C10. With no key in the secret storage the command prompts for one. The input box
  accepts a value exactly when it contains \<open>sk-\<close> followed by 32 alphanumeric characters,
  anywhere in it; the accepted value is stored as entered and the command goes on with it.
  When the prompt is dismissed the command returns at once: it has read the secret and shown
  the box, and nothing else.
\<close>

theorem api_key_prompt:
  "(validateInput v = None) =
     (\<exists>pre k post. v = pre @ ''sk-'' @ k @ post \<and> length k = 32 \<and> list_all alphanumeric k) \<and>
   (showInputBox vs = Some v \<longrightarrow> v \<in> set vs \<and> validateInput v = None) \<and>
   (keyMissing (storedSecret h) \<and> showInputBox (enteredValues h) = Some v \<longrightarrow>
      execute h =
        [GetSecret ''gitlens.openai.key'',
         ShowInputBox ''Please enter your OpenAI API key to use this feature''
           ''Enter your OpenAI API key'',
         StoreSecret ''gitlens.openai.key'' v] @ withRepository h v) \<and>
   (keyMissing (storedSecret h) \<and> showInputBox (enteredValues h) = None \<longrightarrow>
      execute h =
        [GetSecret ''gitlens.openai.key'',
         ShowInputBox ''Please enter your OpenAI API key to use this feature''
           ''Enter your OpenAI API key''])"
proof (intro conjI impI)
  show "(validateInput v = None) =
     (\<exists>pre k post. v = pre @ ''sk-'' @ k @ post \<and> length k = 32 \<and> list_all alphanumeric k)"
    by (rule validateInput_iff)
next
  assume "showInputBox vs = Some v"
  then show "v \<in> set vs" "validateInput v = None"
    using showInputBox_valid [of vs v] by blast+
next
  assume a: "keyMissing (storedSecret h) \<and> showInputBox (enteredValues h) = Some v"
  then have "apiKey h = Some v" by (simp add: apiKey_entered)
  with a show "execute h =
        [GetSecret ''gitlens.openai.key'',
         ShowInputBox ''Please enter your OpenAI API key to use this feature''
           ''Enter your OpenAI API key'',
         StoreSecret ''gitlens.openai.key'' v] @ withRepository h v"
    by (simp add: execute_keyEvents keyEvents_def)
next
  assume a: "keyMissing (storedSecret h) \<and> showInputBox (enteredValues h) = None"
  then have "apiKey h = None" by (simp add: apiKey_def keyMissing_def)
  with a show "execute h =
        [GetSecret ''gitlens.openai.key'',
         ShowInputBox ''Please enter your OpenAI API key to use this feature''
           ''Enter your OpenAI API key'']"
    by (simp add: execute_keyEvents keyEvents_def)
qed

lemma alphanumeric_a: "alphanumeric CHR ''a''"
  by (simp add: alphanumeric_def)

lemma entered_value_valid: "validateInput entered_value = None"
  unfolding validateInput_iff example_key_def entered_value_def
  by (rule exI [of _ "''my ''"], rule exI [of _ "replicate 32 CHR ''a''"], rule exI [of _ "''!''"])
    (simp add: list_all_iff alphanumeric_a)

lemma rejected_values:
  "validateInput ''nokey'' \<noteq> None" "validateInput ''sk-short'' \<noteq> None"
  by (simp_all add: validateInput_def matchesAtStart_def)

lemma example_inputs:
  "showInputBox (enteredValues example_host) = Some entered_value"
  "showInputBox (enteredValues dismissing_host) = None"
  by (simp_all add: showInputBox_def example_host_def dismissing_host_def entered_value_valid
      rejected_values)

theorem api_key_prompt_witness:
  "keyMissing (storedSecret example_host) \<and>
   showInputBox (enteredValues example_host) = Some entered_value \<and>
   take 3 (execute example_host) =
     [GetSecret ''gitlens.openai.key'',
      ShowInputBox ''Please enter your OpenAI API key to use this feature''
        ''Enter your OpenAI API key'',
      StoreSecret ''gitlens.openai.key'' entered_value] \<and>
   keyMissing (storedSecret dismissing_host) \<and>
   showInputBox (enteredValues dismissing_host) = None \<and>
   execute dismissing_host =
     [GetSecret ''gitlens.openai.key'',
      ShowInputBox ''Please enter your OpenAI API key to use this feature''
        ''Enter your OpenAI API key'']"
proof -
  have k1: "keyMissing (storedSecret example_host)"
    by (simp add: keyMissing_def example_host_def)
  have k2: "keyMissing (storedSecret dismissing_host)"
    by (simp add: keyMissing_def example_host_def dismissing_host_def)
  have e1: "execute example_host =
      [GetSecret ''gitlens.openai.key'',
       ShowInputBox ''Please enter your OpenAI API key to use this feature''
         ''Enter your OpenAI API key'',
       StoreSecret ''gitlens.openai.key'' entered_value] @
      withRepository example_host entered_value"
    using k1 example_inputs(1) api_key_prompt [of entered_value "[]" example_host] by blast
  have e2: "execute dismissing_host =
     [GetSecret ''gitlens.openai.key'',
      ShowInputBox ''Please enter your OpenAI API key to use this feature''
        ''Enter your OpenAI API key'']"
    using k2 example_inputs(2) api_key_prompt [of "''x''" "[]" dismissing_host] by blast
  have t: "take 3 (execute example_host) =
     [GetSecret ''gitlens.openai.key'',
      ShowInputBox ''Please enter your OpenAI API key to use this feature''
        ''Enter your OpenAI API key'',
      StoreSecret ''gitlens.openai.key'' entered_value]"
    unfolding e1 by simp
  show ?thesis
    using k1 k2 example_inputs e2 t by blast
qed

subsection \<open>The run of the command\<close>

lemma withRepository_tryBlock:
  assumes "snd (resolveRepository h) = Some repository"
    and "scmInputBoxValue h (path repository) = Some inputBoxValue"
  shows "withRepository h key =
     fst (resolveRepository h) @ [GetScmRepository (path repository)] @
     tryBlock h key repository inputBoxValue"
  using assms by (cases "resolveRepository h") (simp add: withRepository_def)

lemma execute_tryBlock:
  assumes "reachesTryBlock h key repository inputBoxValue"
  shows "execute h = eventsBeforeTry h repository @ tryBlock h key repository inputBoxValue"
  using assms
  by (simp add: reachesTryBlock_def execute_keyEvents eventsBeforeTry_def
      withRepository_tryBlock [of h repository inputBoxValue])

lemma execute_not_reaching:
  assumes "\<not> (\<exists>key repository inputBoxValue. reachesTryBlock h key repository inputBoxValue)"
  shows "execute h = keyEvents h \<or> execute h = keyEvents h @ fst (resolveRepository h) \<or>
         (\<exists>repository. execute h = eventsBeforeTry h repository)"
proof (cases "apiKey h")
  case None
  then show ?thesis by (simp add: execute_keyEvents)
next
  case (Some key)
  show ?thesis
  proof (cases "snd (resolveRepository h)")
    case None
    with Some show ?thesis
      by (cases "resolveRepository h") (simp add: execute_keyEvents withRepository_def)
  next
    case r: (Some repository)
    with Some assms have "scmInputBoxValue h (path repository) = None"
      by (cases "scmInputBoxValue h (path repository)") (auto simp: reachesTryBlock_def)
    with Some r have "execute h = eventsBeforeTry h repository"
      by (cases "resolveRepository h")
        (simp add: execute_keyEvents withRepository_def eventsBeforeTry_def)
    then show ?thesis by blast
  qed
qed

lemma keyEvents_no_set: "\<not> list_ex isSetInputBoxValue (keyEvents h)"
  by (simp add: keyEvents_def split: option.splits)

lemma resolveRepository_no_set: "\<not> list_ex isSetInputBoxValue (fst (resolveRepository h))"
  by (simp add: resolveRepository_def split: option.splits)

lemma eventsBeforeTry_no_set: "\<not> list_ex isSetInputBoxValue (eventsBeforeTry h repository)"
  by (simp add: eventsBeforeTry_def keyEvents_no_set resolveRepository_no_set)

lemma keyEvents_no_warning: "ShowWarningMessage m \<notin> set (keyEvents h)"
  by (simp add: keyEvents_def split: option.splits)

lemma resolveRepository_no_warning: "ShowWarningMessage m \<notin> set (fst (resolveRepository h))"
  by (simp add: resolveRepository_def split: option.splits)

lemma eventsBeforeTry_no_warning: "ShowWarningMessage m \<notin> set (eventsBeforeTry h repository)"
  by (simp add: eventsBeforeTry_def keyEvents_no_warning resolveRepository_no_warning)

lemma generate_cases:
  "generate h key code inputBoxValue =
     (case fetch h (completionRequest key code) of
        Throws \<Rightarrow> ([Fetch (completionRequest key code)], Throws)
      | Returns rsp \<Rightarrow>
          if \<not> ok rsp then
            ([Fetch (completionRequest key code),
              ShowGenericErrorMessage
                (''Unable to generate commit message: '' @ toString (status rsp) @ '': '' @
                 statusText rsp)], Returns ())
          else
            (case json rsp of
               Throws \<Rightarrow> ([Fetch (completionRequest key code)], Throws)
             | Returns [] \<Rightarrow>
                 ([Fetch (completionRequest key code), ExecuteCoreCommand ''ShowSCM''], Throws)
             | Returns (text # others) \<Rightarrow>
                 ([Fetch (completionRequest key code), ExecuteCoreCommand ''ShowSCM'',
                   SetInputBoxValue
                     ((if inputBoxValue \<noteq> [] then inputBoxValue @ ''\<newline>\<newline>'' else []) @
                      trim text)], Returns ())))"
  by (simp add: generate_def Let_def split: outcome.splits list.splits)

lemma generate_no_warning: "ShowWarningMessage m \<notin> set (fst (generate h key code inputBoxValue))"
  by (simp add: generate_cases split: outcome.splits list.splits)

lemma generate_returns:
  "(snd (generate h key code inputBoxValue) = Returns ()) =
     (\<exists>rsp. fetch h (completionRequest key code) = Returns rsp \<and>
        (ok rsp \<longrightarrow> (\<exists>t ts. json rsp = Returns (t # ts))))"
  by (auto simp: generate_cases split: outcome.splits list.splits)

lemma generate_sets:
  "list_ex isSetInputBoxValue (fst (generate h key code inputBoxValue)) =
     (\<exists>rsp t ts. fetch h (completionRequest key code) = Returns rsp \<and> ok rsp \<and>
        json rsp = Returns (t # ts))"
  by (auto simp: generate_cases split: outcome.splits list.splits)

lemma tryBlock_diff:
  assumes "getDiff h (uri repository) = Returns (Some diff)"
  shows "tryBlock h key repository inputBoxValue =
     [GetDiff (uri repository) ''uncommittedStaged'', WithProgress ''Generating commit message...''] @
     fst (generate h key (take 8000 diff) inputBoxValue) @
     (case snd (generate h key (take 8000 diff) inputBoxValue) of
        Throws \<Rightarrow> catchBlock
      | Returns u \<Rightarrow> if length diff > 8000 then [ShowWarningMessage truncationWarning] else [])"
  using assms by (simp add: tryBlock_def Let_def split: prod.splits)


lemma keyEvents_key:
  assumes "apiKey h = Some key"
  shows "keyEvents h =
     [GetSecret ''gitlens.openai.key''] @
     (if keyMissing (storedSecret h) then
        [ShowInputBox ''Please enter your OpenAI API key to use this feature''
           ''Enter your OpenAI API key'',
         StoreSecret ''gitlens.openai.key'' key]
      else [])"
  using assms by (simp add: keyEvents_def)

lemma warning_shown:
  assumes "reachesTryBlock h key repository inputBoxValue"
    and "getDiff h (uri repository) = Returns (Some diff)"
  shows "(ShowWarningMessage truncationWarning \<in> set (execute h)) =
     (length diff > 8000 \<and> snd (generate h key (take 8000 diff) inputBoxValue) = Returns ())"
proof (cases "snd (generate h key (take 8000 diff) inputBoxValue)")
  case Throws
  then show ?thesis
    by (simp add: execute_tryBlock [OF assms(1)] tryBlock_diff [OF assms(2)]
        eventsBeforeTry_no_warning generate_no_warning catchBlock_def)
next
  case (Returns u)
  then show ?thesis
    by (simp add: execute_tryBlock [OF assms(1)] tryBlock_diff [OF assms(2)]
        eventsBeforeTry_no_warning generate_no_warning)
qed

text \<open>
  Claim C3, as stated, fails in its last part: with a staged diff of 8001 characters and a
  request that throws, the run ends in the \<^verbatim>\<open>catch\<close> block and shows no truncation warning.
\<close>

theorem no_truncation_warning_when_request_throws:
  "getDiff throwing_host (uri example_repository) = Returns (Some (replicate 8001 CHR ''x'')) \<and>
   length (replicate 8001 CHR ''x'') > 8000 \<and>
   ShowWarningMessage truncationWarning \<notin> set (execute throwing_host)"
  by (simp add: throwing_host_def example_host_def execute_def keyMissing_def example_key_def
      withRepository_def resolveRepository_def example_repository_def tryBlock_def generate_def
      catchBlock_def)

text \<open>
  Claim C3, amended. On a run that has a key (read from the secret storage, or entered at the
  prompt and then stored), a repository with its SCM repository, and a staged diff, the
  request is the POST of lines 461-480, with the key as bearer token and the first 8000
  characters of the diff in the prompt. When the answer is OK and has a choice, the events
  are exactly: the key, the repository, the diff, the request, showing the SCM view, and
  setting the input box to its former value, a blank line when that value is not empty, and
  the trimmed text of the first choice; then the truncation warning when the diff has more
  than 8000 characters. The warning is shown if and only if the diff has more than 8000
  characters and the request did not throw, that is, it was answered with a status that is
  not OK, or with a completion that has a choice.
\<close>

theorem commit_message_sequence:
  assumes "reachesTryBlock h key repository inputBoxValue"
    and "getDiff h (uri repository) = Returns (Some diff)"
  shows "keyEvents h =
           [GetSecret ''gitlens.openai.key''] @
           (if keyMissing (storedSecret h) then
              [ShowInputBox ''Please enter your OpenAI API key to use this feature''
                 ''Enter your OpenAI API key'',
               StoreSecret ''gitlens.openai.key'' key]
            else []) \<and>
         completionRequest key (take 8000 diff) =
           \<lparr>url = ''https://api.openai.com/v1/completions'',
            headers = [(''Authorization'', ''Bearer '' @ key),
                       (''Content-Type'', ''application/json'')],
            httpMethod = ''POST'',
            body = \<lparr>model = ''text-davinci-003'', prompt = promptFor (take 8000 diff),
                     max_tokens = 500, temperature = 0.5, top_p = 1, stream = False\<rparr>\<rparr> \<and>
         (fetch h (completionRequest key (take 8000 diff)) = Returns rsp \<and> ok rsp \<and>
          json rsp = Returns (text # others) \<longrightarrow>
            execute h =
              keyEvents h @ fst (resolveRepository h) @
              [GetScmRepository (path repository),
               GetDiff (uri repository) ''uncommittedStaged'',
               WithProgress ''Generating commit message...'',
               Fetch (completionRequest key (take 8000 diff)),
               ExecuteCoreCommand ''ShowSCM'',
               SetInputBoxValue
                 ((if inputBoxValue = [] then [] else inputBoxValue @ ''\<newline>\<newline>'') @
                  trim text)] @
              (if length diff > 8000 then [ShowWarningMessage truncationWarning] else [])) \<and>
         (ShowWarningMessage truncationWarning \<in> set (execute h)) =
           (length diff > 8000 \<and>
            (\<exists>rsp. fetch h (completionRequest key (take 8000 diff)) = Returns rsp \<and>
               (ok rsp \<longrightarrow> (\<exists>t ts. json rsp = Returns (t # ts)))))"
proof (intro conjI impI)
  from assms(1) have "apiKey h = Some key" by (simp add: reachesTryBlock_def)
  then show "keyEvents h =
           [GetSecret ''gitlens.openai.key''] @
           (if keyMissing (storedSecret h) then
              [ShowInputBox ''Please enter your OpenAI API key to use this feature''
                 ''Enter your OpenAI API key'',
               StoreSecret ''gitlens.openai.key'' key]
            else [])"
    by (rule keyEvents_key)
next
  show "completionRequest key (take 8000 diff) =
           \<lparr>url = ''https://api.openai.com/v1/completions'',
            headers = [(''Authorization'', ''Bearer '' @ key),
                       (''Content-Type'', ''application/json'')],
            httpMethod = ''POST'',
            body = \<lparr>model = ''text-davinci-003'', prompt = promptFor (take 8000 diff),
                     max_tokens = 500, temperature = 0.5, top_p = 1, stream = False\<rparr>\<rparr>"
    by (simp add: completionRequest_def)
next
  assume a: "fetch h (completionRequest key (take 8000 diff)) = Returns rsp \<and> ok rsp \<and>
          json rsp = Returns (text # others)"
  then have g: "generate h key (take 8000 diff) inputBoxValue =
      ([Fetch (completionRequest key (take 8000 diff)), ExecuteCoreCommand ''ShowSCM'',
        SetInputBoxValue
          ((if inputBoxValue = [] then [] else inputBoxValue @ ''\<newline>\<newline>'') @ trim text)],
       Returns ())"
    by (simp add: generate_cases)
  show "execute h =
              keyEvents h @ fst (resolveRepository h) @
              [GetScmRepository (path repository),
               GetDiff (uri repository) ''uncommittedStaged'',
               WithProgress ''Generating commit message...'',
               Fetch (completionRequest key (take 8000 diff)),
               ExecuteCoreCommand ''ShowSCM'',
               SetInputBoxValue
                 ((if inputBoxValue = [] then [] else inputBoxValue @ ''\<newline>\<newline>'') @
                  trim text)] @
              (if length diff > 8000 then [ShowWarningMessage truncationWarning] else [])"
    by (simp add: execute_tryBlock [OF assms(1)] tryBlock_diff [OF assms(2)] g
        eventsBeforeTry_def)
next
  show "(ShowWarningMessage truncationWarning \<in> set (execute h)) =
           (length diff > 8000 \<and>
            (\<exists>rsp. fetch h (completionRequest key (take 8000 diff)) = Returns rsp \<and>
               (ok rsp \<longrightarrow> (\<exists>t ts. json rsp = Returns (t # ts)))))"
    by (simp only: warning_shown [OF assms] generate_returns)
qed


lemma example_host_reaches:
  "reachesTryBlock example_host entered_value example_repository ''WIP''"
proof -
  have "keyMissing (storedSecret example_host)"
    by (simp add: keyMissing_def example_host_def)
  then have "apiKey example_host = Some entered_value"
    using example_inputs(1) by (rule apiKey_entered)
  then show ?thesis
    by (simp add: reachesTryBlock_def)
      (simp add: example_host_def resolveRepository_def example_repository_def)
qed

theorem commit_message_sequence_witness:
  "reachesTryBlock example_host entered_value example_repository ''WIP'' \<and>
   getDiff example_host (uri example_repository) = Returns (Some (replicate 8001 CHR ''x'')) \<and>
   execute example_host =
     [GetSecret ''gitlens.openai.key'',
      ShowInputBox ''Please enter your OpenAI API key to use this feature''
        ''Enter your OpenAI API key'',
      StoreSecret ''gitlens.openai.key'' entered_value,
      GetBestRepositoryOrShow ''Generate Commit Message'',
      GetScmRepository ''/repo'',
      GetDiff ''file:///repo'' ''uncommittedStaged'',
      WithProgress ''Generating commit message...'',
      Fetch (completionRequest entered_value (replicate 8000 CHR ''x'')),
      ExecuteCoreCommand ''ShowSCM'',
      SetInputBoxValue ''WIP\<newline>\<newline>Fix the thing'',
      ShowWarningMessage truncationWarning]"
proof -
  have d: "getDiff example_host (uri example_repository) = Returns (Some (replicate 8001 CHR ''x''))"
    by (simp add: example_host_def)
  have f: "fetch example_host (completionRequest entered_value (take 8000 (replicate 8001 CHR ''x''))) =
      Returns ok_response \<and> ok ok_response \<and>
      json ok_response = Returns ((CHR 0xA0 # '' Fix the thing\<newline>'') # [''other''])"
    by (simp add: example_host_def ok_response_def)
  have k: "keyEvents example_host =
      [GetSecret ''gitlens.openai.key'',
       ShowInputBox ''Please enter your OpenAI API key to use this feature''
         ''Enter your OpenAI API key'',
       StoreSecret ''gitlens.openai.key'' entered_value]"
    using commit_message_sequence [OF example_host_reaches d]
    by (simp add: keyMissing_def example_host_def)
  have r: "fst (resolveRepository example_host) = [GetBestRepositoryOrShow ''Generate Commit Message'']"
    by (simp add: example_host_def resolveRepository_def)
  have t: "trim (CHR 0xA0 # '' Fix the thing\<newline>'') = ''Fix the thing''"
    by (simp add: trim_def whiteSpace_def)
  have "execute example_host =
      keyEvents example_host @ fst (resolveRepository example_host) @
      [GetScmRepository (path example_repository),
       GetDiff (uri example_repository) ''uncommittedStaged'',
       WithProgress ''Generating commit message...'',
       Fetch (completionRequest entered_value (take 8000 (replicate 8001 CHR ''x''))),
       ExecuteCoreCommand ''ShowSCM'',
       SetInputBoxValue
         ((if ''WIP'' = [] then [] else ''WIP'' @ ''\<newline>\<newline>'') @
          trim (CHR 0xA0 # '' Fix the thing\<newline>''))] @
      (if length (replicate 8001 CHR ''x'') > 8000 then [ShowWarningMessage truncationWarning]
       else [])"
    using commit_message_sequence [OF example_host_reaches d] f by blast
  then have "execute example_host =
     [GetSecret ''gitlens.openai.key'',
      ShowInputBox ''Please enter your OpenAI API key to use this feature''
        ''Enter your OpenAI API key'',
      StoreSecret ''gitlens.openai.key'' entered_value,
      GetBestRepositoryOrShow ''Generate Commit Message'',
      GetScmRepository ''/repo'',
      GetDiff ''file:///repo'' ''uncommittedStaged'',
      WithProgress ''Generating commit message...'',
      Fetch (completionRequest entered_value (replicate 8000 CHR ''x'')),
      ExecuteCoreCommand ''ShowSCM'',
      SetInputBoxValue ''WIP\<newline>\<newline>Fix the thing'',
      ShowWarningMessage truncationWarning]"
    by (simp add: k r t example_repository_def)
  with example_host_reaches d show ?thesis by blast
qed

subsection \<open>Failures\<close>

text \<open>
  Claim C4, as stated, fails: when there is no staged diff the command shows an information
  message and logs nothing.
\<close>

theorem missing_diff_not_logged:
  "getDiff no_diff_host (uri example_repository) = Returns None \<and>
   execute no_diff_host =
     [GetSecret ''gitlens.openai.key'',
      GetBestRepositoryOrShow ''Generate Commit Message'',
      GetScmRepository ''/repo'',
      GetDiff ''file:///repo'' ''uncommittedStaged'',
      ShowInformationMessage ''No staged changes to generate a commit message from.''] \<and>
   \<not> list_ex isLoggerError (execute no_diff_host)"
  by (simp add: no_diff_host_def example_host_def execute_def keyMissing_def example_key_def
      withRepository_def resolveRepository_def example_repository_def tryBlock_def)

lemma tryBlock_sets:
  "list_ex isSetInputBoxValue (tryBlock h key repository inputBoxValue) =
     (\<exists>diff rsp t ts. getDiff h (uri repository) = Returns (Some diff) \<and>
        fetch h (completionRequest key (take 8000 diff)) = Returns rsp \<and> ok rsp \<and>
        json rsp = Returns (t # ts))"
proof (cases "getDiff h (uri repository)")
  case Throws
  then show ?thesis by (simp add: tryBlock_def catchBlock_def)
next
  case (Returns d)
  show ?thesis
  proof (cases d)
    case None
    with Returns show ?thesis by (simp add: tryBlock_def)
  next
    case (Some diff)
    with Returns have g: "getDiff h (uri repository) = Returns (Some diff)" by simp
    show ?thesis
      unfolding tryBlock_diff [OF g]
      by (cases "snd (generate h key (take 8000 diff) inputBoxValue)")
        (simp_all add: g generate_sets catchBlock_def)
  qed
qed

lemma execute_sets:
  assumes "list_ex isSetInputBoxValue (execute h)"
  shows "\<exists>key repository inputBoxValue diff rsp t ts.
     reachesTryBlock h key repository inputBoxValue \<and>
     getDiff h (uri repository) = Returns (Some diff) \<and>
     fetch h (completionRequest key (take 8000 diff)) = Returns rsp \<and> ok rsp \<and>
     json rsp = Returns (t # ts)"
proof (cases "\<exists>key repository inputBoxValue. reachesTryBlock h key repository inputBoxValue")
  case True
  then obtain key repository inputBoxValue
    where r: "reachesTryBlock h key repository inputBoxValue" by blast
  from assms have "list_ex isSetInputBoxValue (tryBlock h key repository inputBoxValue)"
    by (simp add: execute_tryBlock [OF r] eventsBeforeTry_no_set)
  with r show ?thesis unfolding tryBlock_sets by blast
next
  case False
  from execute_not_reaching [OF False] assms show ?thesis
    by (auto simp: keyEvents_no_set resolveRepository_no_set eventsBeforeTry_no_set)
qed


text \<open>
  Claim C4, amended. When the diff retrieval or the request throws, or the answer cannot be
  read or has no choice, the error is logged and the generic error message is shown. When
  there is no staged diff, an information message is shown and nothing is logged. When the
  status of the answer is not OK, the error message with the status is shown, nothing is
  logged here, and the truncation warning follows when the diff has more than 8000
  characters. The input box is set on no run but the one whose answer is OK and has a choice.
\<close>

theorem failures_reported:
  "(reachesTryBlock h key repository inputBoxValue \<and> getDiff h (uri repository) = Throws \<longrightarrow>
      execute h =
        eventsBeforeTry h repository @
        [GetDiff (uri repository) ''uncommittedStaged'',
         LoggerError ''GenerateCommitMessageCommand'',
         ShowGenericErrorMessage ''Unable to generate commit message'']) \<and>
   (reachesTryBlock h key repository inputBoxValue \<and>
    getDiff h (uri repository) = Returns None \<longrightarrow>
      execute h =
        eventsBeforeTry h repository @
        [GetDiff (uri repository) ''uncommittedStaged'',
         ShowInformationMessage ''No staged changes to generate a commit message from.'']) \<and>
   (reachesTryBlock h key repository inputBoxValue \<and>
    getDiff h (uri repository) = Returns (Some diff) \<and>
    (fetch h (completionRequest key (take 8000 diff)) = Throws \<or>
     fetch h (completionRequest key (take 8000 diff)) = Returns rsp \<and> ok rsp \<and>
     json rsp = Throws) \<longrightarrow>
      execute h =
        eventsBeforeTry h repository @
        [GetDiff (uri repository) ''uncommittedStaged'',
         WithProgress ''Generating commit message...'',
         Fetch (completionRequest key (take 8000 diff)),
         LoggerError ''GenerateCommitMessageCommand'',
         ShowGenericErrorMessage ''Unable to generate commit message'']) \<and>
   (reachesTryBlock h key repository inputBoxValue \<and>
    getDiff h (uri repository) = Returns (Some diff) \<and>
    fetch h (completionRequest key (take 8000 diff)) = Returns rsp \<and> ok rsp \<and>
    json rsp = Returns [] \<longrightarrow>
      execute h =
        eventsBeforeTry h repository @
        [GetDiff (uri repository) ''uncommittedStaged'',
         WithProgress ''Generating commit message...'',
         Fetch (completionRequest key (take 8000 diff)),
         ExecuteCoreCommand ''ShowSCM'',
         LoggerError ''GenerateCommitMessageCommand'',
         ShowGenericErrorMessage ''Unable to generate commit message'']) \<and>
   (reachesTryBlock h key repository inputBoxValue \<and>
    getDiff h (uri repository) = Returns (Some diff) \<and>
    fetch h (completionRequest key (take 8000 diff)) = Returns rsp \<and> \<not> ok rsp \<longrightarrow>
      execute h =
        eventsBeforeTry h repository @
        [GetDiff (uri repository) ''uncommittedStaged'',
         WithProgress ''Generating commit message...'',
         Fetch (completionRequest key (take 8000 diff)),
         ShowGenericErrorMessage
           (''Unable to generate commit message: '' @ toString (status rsp) @ '': '' @
            statusText rsp)] @
        (if length diff > 8000 then [ShowWarningMessage truncationWarning] else [])) \<and>
   (list_ex isSetInputBoxValue (execute h) \<longrightarrow>
      (\<exists>key repository inputBoxValue diff rsp t ts.
         reachesTryBlock h key repository inputBoxValue \<and>
         getDiff h (uri repository) = Returns (Some diff) \<and>
         fetch h (completionRequest key (take 8000 diff)) = Returns rsp \<and> ok rsp \<and>
         json rsp = Returns (t # ts)))"
proof (intro conjI impI)
  assume a: "reachesTryBlock h key repository inputBoxValue \<and> getDiff h (uri repository) = Throws"
  then show "execute h =
        eventsBeforeTry h repository @
        [GetDiff (uri repository) ''uncommittedStaged'',
         LoggerError ''GenerateCommitMessageCommand'',
         ShowGenericErrorMessage ''Unable to generate commit message'']"
    by (simp add: execute_tryBlock [of h key repository inputBoxValue] tryBlock_def catchBlock_def)
next
  assume a: "reachesTryBlock h key repository inputBoxValue \<and>
    getDiff h (uri repository) = Returns None"
  then show "execute h =
        eventsBeforeTry h repository @
        [GetDiff (uri repository) ''uncommittedStaged'',
         ShowInformationMessage ''No staged changes to generate a commit message from.'']"
    by (simp add: execute_tryBlock [of h key repository inputBoxValue] tryBlock_def)
next
  assume a: "reachesTryBlock h key repository inputBoxValue \<and>
    getDiff h (uri repository) = Returns (Some diff) \<and>
    (fetch h (completionRequest key (take 8000 diff)) = Throws \<or>
     fetch h (completionRequest key (take 8000 diff)) = Returns rsp \<and> ok rsp \<and>
     json rsp = Throws)"
  then have "generate h key (take 8000 diff) inputBoxValue =
      ([Fetch (completionRequest key (take 8000 diff))], Throws)"
    by (auto simp: generate_cases)
  with a show "execute h =
        eventsBeforeTry h repository @
        [GetDiff (uri repository) ''uncommittedStaged'',
         WithProgress ''Generating commit message...'',
         Fetch (completionRequest key (take 8000 diff)),
         LoggerError ''GenerateCommitMessageCommand'',
         ShowGenericErrorMessage ''Unable to generate commit message'']"
    by (simp add: execute_tryBlock [of h key repository inputBoxValue]
        tryBlock_diff [of h repository diff] catchBlock_def)
next
  assume a: "reachesTryBlock h key repository inputBoxValue \<and>
    getDiff h (uri repository) = Returns (Some diff) \<and>
    fetch h (completionRequest key (take 8000 diff)) = Returns rsp \<and> ok rsp \<and>
    json rsp = Returns []"
  then have "generate h key (take 8000 diff) inputBoxValue =
      ([Fetch (completionRequest key (take 8000 diff)), ExecuteCoreCommand ''ShowSCM''], Throws)"
    by (simp add: generate_cases)
  with a show "execute h =
        eventsBeforeTry h repository @
        [GetDiff (uri repository) ''uncommittedStaged'',
         WithProgress ''Generating commit message...'',
         Fetch (completionRequest key (take 8000 diff)),
         ExecuteCoreCommand ''ShowSCM'',
         LoggerError ''GenerateCommitMessageCommand'',
         ShowGenericErrorMessage ''Unable to generate commit message'']"
    by (simp add: execute_tryBlock [of h key repository inputBoxValue]
        tryBlock_diff [of h repository diff] catchBlock_def)
next
  assume a: "reachesTryBlock h key repository inputBoxValue \<and>
    getDiff h (uri repository) = Returns (Some diff) \<and>
    fetch h (completionRequest key (take 8000 diff)) = Returns rsp \<and> \<not> ok rsp"
  then have "generate h key (take 8000 diff) inputBoxValue =
      ([Fetch (completionRequest key (take 8000 diff)),
        ShowGenericErrorMessage
          (''Unable to generate commit message: '' @ toString (status rsp) @ '': '' @
           statusText rsp)], Returns ())"
    by (simp add: generate_cases)
  with a show "execute h =
        eventsBeforeTry h repository @
        [GetDiff (uri repository) ''uncommittedStaged'',
         WithProgress ''Generating commit message...'',
         Fetch (completionRequest key (take 8000 diff)),
         ShowGenericErrorMessage
           (''Unable to generate commit message: '' @ toString (status rsp) @ '': '' @
            statusText rsp)] @
        (if length diff > 8000 then [ShowWarningMessage truncationWarning] else [])"
    by (simp add: execute_tryBlock [of h key repository inputBoxValue]
        tryBlock_diff [of h repository diff])
next
  assume "list_ex isSetInputBoxValue (execute h)"
  then show "\<exists>key repository inputBoxValue diff rsp t ts.
         reachesTryBlock h key repository inputBoxValue \<and>
         getDiff h (uri repository) = Returns (Some diff) \<and>
         fetch h (completionRequest key (take 8000 diff)) = Returns rsp \<and> ok rsp \<and>
         json rsp = Returns (t # ts)"
    by (rule execute_sets)
qed


lemma stored_key_hosts_reach:
  "reachesTryBlock diff_throwing_host example_key example_repository ''WIP''"
  "reachesTryBlock no_diff_host example_key example_repository ''WIP''"
  "reachesTryBlock throwing_host example_key example_repository ''WIP''"
  "reachesTryBlock empty_choices_host example_key example_repository ''WIP''"
  "reachesTryBlock refused_host example_key example_repository ''WIP''"
  by (simp_all add: reachesTryBlock_def apiKey_def keyMissing_def resolveRepository_def
      diff_throwing_host_def no_diff_host_def throwing_host_def empty_choices_host_def
      refused_host_def example_host_def example_key_def example_repository_def)

lemma stored_key_hosts_before:
  "eventsBeforeTry diff_throwing_host example_repository =
     [GetSecret ''gitlens.openai.key'', GetBestRepositoryOrShow ''Generate Commit Message'',
      GetScmRepository ''/repo'']"
  "eventsBeforeTry no_diff_host example_repository =
     [GetSecret ''gitlens.openai.key'', GetBestRepositoryOrShow ''Generate Commit Message'',
      GetScmRepository ''/repo'']"
  "eventsBeforeTry throwing_host example_repository =
     [GetSecret ''gitlens.openai.key'', GetBestRepositoryOrShow ''Generate Commit Message'',
      GetScmRepository ''/repo'']"
  "eventsBeforeTry empty_choices_host example_repository =
     [GetSecret ''gitlens.openai.key'', GetBestRepositoryOrShow ''Generate Commit Message'',
      GetScmRepository ''/repo'']"
  "eventsBeforeTry refused_host example_repository =
     [GetSecret ''gitlens.openai.key'', GetBestRepositoryOrShow ''Generate Commit Message'',
      GetScmRepository ''/repo'']"
  by (simp_all add: eventsBeforeTry_def keyEvents_def keyMissing_def resolveRepository_def
      diff_throwing_host_def no_diff_host_def throwing_host_def empty_choices_host_def
      refused_host_def example_host_def example_key_def example_repository_def)

lemma example_host_sets: "list_ex isSetInputBoxValue (execute example_host)"
proof -
  have d: "getDiff example_host (uri example_repository) = Returns (Some (replicate 8001 CHR ''x''))"
    by (simp add: example_host_def)
  have "list_ex isSetInputBoxValue
      (tryBlock example_host entered_value example_repository ''WIP'')"
    unfolding tryBlock_sets using d by (simp add: example_host_def ok_response_def)
  then show ?thesis
    by (simp add: execute_tryBlock [OF example_host_reaches])
qed

lemma example_repository_fields:
  "path example_repository = ''/repo''" "uri example_repository = ''file:///repo''"
  by (simp_all add: example_repository_def)

lemma toString_401: "toString 401 = ''401''"
  by (simp add: toString.simps digit_def)

theorem failures_reported_witness:
  "(reachesTryBlock diff_throwing_host example_key example_repository ''WIP'' \<and>
    getDiff diff_throwing_host (uri example_repository) = Throws) \<and>
   execute diff_throwing_host =
     [GetSecret ''gitlens.openai.key'', GetBestRepositoryOrShow ''Generate Commit Message'',
      GetScmRepository ''/repo'', GetDiff ''file:///repo'' ''uncommittedStaged'',
      LoggerError ''GenerateCommitMessageCommand'',
      ShowGenericErrorMessage ''Unable to generate commit message''] \<and>
   (reachesTryBlock no_diff_host example_key example_repository ''WIP'' \<and>
    getDiff no_diff_host (uri example_repository) = Returns None) \<and>
   execute no_diff_host =
     [GetSecret ''gitlens.openai.key'', GetBestRepositoryOrShow ''Generate Commit Message'',
      GetScmRepository ''/repo'', GetDiff ''file:///repo'' ''uncommittedStaged'',
      ShowInformationMessage ''No staged changes to generate a commit message from.''] \<and>
   (reachesTryBlock throwing_host example_key example_repository ''WIP'' \<and>
    getDiff throwing_host (uri example_repository) = Returns (Some (replicate 8001 CHR ''x'')) \<and>
    fetch throwing_host (completionRequest example_key (take 8000 (replicate 8001 CHR ''x''))) =
      Throws) \<and>
   execute throwing_host =
     [GetSecret ''gitlens.openai.key'', GetBestRepositoryOrShow ''Generate Commit Message'',
      GetScmRepository ''/repo'', GetDiff ''file:///repo'' ''uncommittedStaged'',
      WithProgress ''Generating commit message...'',
      Fetch (completionRequest example_key (replicate 8000 CHR ''x'')),
      LoggerError ''GenerateCommitMessageCommand'',
      ShowGenericErrorMessage ''Unable to generate commit message''] \<and>
   (reachesTryBlock empty_choices_host example_key example_repository ''WIP'' \<and>
    getDiff empty_choices_host (uri example_repository) =
      Returns (Some (replicate 8001 CHR ''x'')) \<and>
    fetch empty_choices_host
      (completionRequest example_key (take 8000 (replicate 8001 CHR ''x''))) =
      Returns \<lparr>ok = True, status = 200, statusText = ''OK'', json = Returns []\<rparr>) \<and>
   execute empty_choices_host =
     [GetSecret ''gitlens.openai.key'', GetBestRepositoryOrShow ''Generate Commit Message'',
      GetScmRepository ''/repo'', GetDiff ''file:///repo'' ''uncommittedStaged'',
      WithProgress ''Generating commit message...'',
      Fetch (completionRequest example_key (replicate 8000 CHR ''x'')),
      ExecuteCoreCommand ''ShowSCM'',
      LoggerError ''GenerateCommitMessageCommand'',
      ShowGenericErrorMessage ''Unable to generate commit message''] \<and>
   (reachesTryBlock refused_host example_key example_repository ''WIP'' \<and>
    getDiff refused_host (uri example_repository) = Returns (Some (replicate 8001 CHR ''x'')) \<and>
    fetch refused_host (completionRequest example_key (take 8000 (replicate 8001 CHR ''x''))) =
      Returns \<lparr>ok = False, status = 401, statusText = ''Unauthorized'', json = Throws\<rparr>) \<and>
   execute refused_host =
     [GetSecret ''gitlens.openai.key'', GetBestRepositoryOrShow ''Generate Commit Message'',
      GetScmRepository ''/repo'', GetDiff ''file:///repo'' ''uncommittedStaged'',
      WithProgress ''Generating commit message...'',
      Fetch (completionRequest example_key (replicate 8000 CHR ''x'')),
      ShowGenericErrorMessage ''Unable to generate commit message: 401: Unauthorized'',
      ShowWarningMessage truncationWarning] \<and>
   list_ex isSetInputBoxValue (execute example_host) \<and>
   (\<exists>key repository inputBoxValue diff rsp t ts.
      reachesTryBlock example_host key repository inputBoxValue \<and>
      getDiff example_host (uri repository) = Returns (Some diff) \<and>
      fetch example_host (completionRequest key (take 8000 diff)) = Returns rsp \<and> ok rsp \<and>
      json rsp = Returns (t # ts))"
proof -
  have h1: "reachesTryBlock diff_throwing_host example_key example_repository ''WIP'' \<and>
      getDiff diff_throwing_host (uri example_repository) = Throws"
    by (simp add: stored_key_hosts_reach) (simp add: diff_throwing_host_def)
  have h2: "reachesTryBlock no_diff_host example_key example_repository ''WIP'' \<and>
      getDiff no_diff_host (uri example_repository) = Returns None"
    by (simp add: stored_key_hosts_reach) (simp add: no_diff_host_def)
  have h3: "reachesTryBlock throwing_host example_key example_repository ''WIP'' \<and>
      getDiff throwing_host (uri example_repository) = Returns (Some (replicate 8001 CHR ''x'')) \<and>
      (fetch throwing_host (completionRequest example_key (take 8000 (replicate 8001 CHR ''x''))) =
         Throws \<or>
       fetch throwing_host (completionRequest example_key (take 8000 (replicate 8001 CHR ''x''))) =
         Returns ok_response \<and> ok ok_response \<and> json ok_response = Throws)"
    by (simp add: stored_key_hosts_reach) (simp add: throwing_host_def example_host_def)
  have h4: "reachesTryBlock empty_choices_host example_key example_repository ''WIP'' \<and>
      getDiff empty_choices_host (uri example_repository) =
        Returns (Some (replicate 8001 CHR ''x'')) \<and>
      fetch empty_choices_host
        (completionRequest example_key (take 8000 (replicate 8001 CHR ''x''))) =
        Returns \<lparr>ok = True, status = 200, statusText = ''OK'', json = Returns []\<rparr> \<and>
      ok \<lparr>ok = True, status = 200, statusText = ''OK'', json = Returns []\<rparr> \<and>
      json \<lparr>ok = True, status = 200, statusText = ''OK'', json = Returns []\<rparr> = Returns []"
    by (simp add: stored_key_hosts_reach) (simp add: empty_choices_host_def example_host_def)
  have h5: "reachesTryBlock refused_host example_key example_repository ''WIP'' \<and>
      getDiff refused_host (uri example_repository) = Returns (Some (replicate 8001 CHR ''x'')) \<and>
      fetch refused_host (completionRequest example_key (take 8000 (replicate 8001 CHR ''x''))) =
        Returns \<lparr>ok = False, status = 401, statusText = ''Unauthorized'', json = Throws\<rparr> \<and>
      \<not> ok \<lparr>ok = False, status = 401, statusText = ''Unauthorized'', json = Throws\<rparr>"
    by (simp add: stored_key_hosts_reach) (simp add: refused_host_def example_host_def)
  note f1 = failures_reported [of diff_throwing_host example_key example_repository "''WIP''"]
  note f2 = failures_reported [of no_diff_host example_key example_repository "''WIP''"]
  note f3 = failures_reported [of throwing_host example_key example_repository "''WIP''"
      "replicate 8001 CHR ''x''" ok_response]
  note f4 = failures_reported [of empty_choices_host example_key example_repository "''WIP''"
      "replicate 8001 CHR ''x''"
      "\<lparr>ok = True, status = 200, statusText = ''OK'', json = Returns []\<rparr>"]
  note f5 = failures_reported [of refused_host example_key example_repository "''WIP''"
      "replicate 8001 CHR ''x''"
      "\<lparr>ok = False, status = 401, statusText = ''Unauthorized'', json = Throws\<rparr>"]
  note f6 = failures_reported [of example_host example_key example_repository "''WIP''"]
  have e1: "execute diff_throwing_host =
     [GetSecret ''gitlens.openai.key'', GetBestRepositoryOrShow ''Generate Commit Message'',
      GetScmRepository ''/repo'', GetDiff ''file:///repo'' ''uncommittedStaged'',
      LoggerError ''GenerateCommitMessageCommand'',
      ShowGenericErrorMessage ''Unable to generate commit message'']"
    using f1 h1 by (simp add: stored_key_hosts_before example_repository_fields)
  have e2: "execute no_diff_host =
     [GetSecret ''gitlens.openai.key'', GetBestRepositoryOrShow ''Generate Commit Message'',
      GetScmRepository ''/repo'', GetDiff ''file:///repo'' ''uncommittedStaged'',
      ShowInformationMessage ''No staged changes to generate a commit message from.'']"
    using f2 h2 by (simp add: stored_key_hosts_before example_repository_fields)
  have e3: "execute throwing_host =
     [GetSecret ''gitlens.openai.key'', GetBestRepositoryOrShow ''Generate Commit Message'',
      GetScmRepository ''/repo'', GetDiff ''file:///repo'' ''uncommittedStaged'',
      WithProgress ''Generating commit message...'',
      Fetch (completionRequest example_key (replicate 8000 CHR ''x'')),
      LoggerError ''GenerateCommitMessageCommand'',
      ShowGenericErrorMessage ''Unable to generate commit message'']"
    using f3 h3 by (simp add: stored_key_hosts_before example_repository_fields)
  have e4: "execute empty_choices_host =
     [GetSecret ''gitlens.openai.key'', GetBestRepositoryOrShow ''Generate Commit Message'',
      GetScmRepository ''/repo'', GetDiff ''file:///repo'' ''uncommittedStaged'',
      WithProgress ''Generating commit message...'',
      Fetch (completionRequest example_key (replicate 8000 CHR ''x'')),
      ExecuteCoreCommand ''ShowSCM'',
      LoggerError ''GenerateCommitMessageCommand'',
      ShowGenericErrorMessage ''Unable to generate commit message'']"
    using f4 h4 by (simp add: stored_key_hosts_before example_repository_fields)
  have e5: "execute refused_host =
     [GetSecret ''gitlens.openai.key'', GetBestRepositoryOrShow ''Generate Commit Message'',
      GetScmRepository ''/repo'', GetDiff ''file:///repo'' ''uncommittedStaged'',
      WithProgress ''Generating commit message...'',
      Fetch (completionRequest example_key (replicate 8000 CHR ''x'')),
      ShowGenericErrorMessage ''Unable to generate commit message: 401: Unauthorized'',
      ShowWarningMessage truncationWarning]"
    using f5 h5 by (simp add: stored_key_hosts_before example_repository_fields toString_401)
  have e6: "\<exists>key repository inputBoxValue diff rsp t ts.
      reachesTryBlock example_host key repository inputBoxValue \<and>
      getDiff example_host (uri repository) = Returns (Some diff) \<and>
      fetch example_host (completionRequest key (take 8000 diff)) = Returns rsp \<and> ok rsp \<and>
      json rsp = Returns (t # ts)"
    using f6 example_host_sets by blast
  show ?thesis
    using h1 h2 h3 h4 h5 e1 e2 e3 e4 e5 e6 example_host_sets
    by (simp add: throwing_host_def example_host_def example_repository_fields)
qed

subsection \<open>The counter of the wizard\<close>










lemma defaulted_state_eq:
  "defaulted_state =
     \<lparr>counter = 0, repo = None, pattern = None, matchAll = Some False, matchCase = Some False,
      matchRegex = Some True, showResultsInSideBar = None, openPickInView = None\<rparr>"
  by (simp add: defaulted_state_def applyDefaults_def fresh_state_def example_settings_def)

lemma single_repositoryPart:
  "repositoryPart single_context defaulted_state False i =
     (skipped_state, Picked (True, example_repository))"
  by (simp add: repositoryPart_def pickRepository_def single_context_def skipped_state_def
      defaulted_state_eq)

lemma skipped_state_cancel:
  "pattern skipped_state = None"
  "fold applyPickerEvent (pickerEvents cancel_operator) skipped_state = skipped_state\<lparr>counter := 2\<rparr>"
  "canPickStepContinue example_params 2 (pickerSelection cancel_operator) = (False, 1)"
  by (simp_all add: skipped_state_def defaulted_state_eq cancel_operator_def example_params_def
      trim_def)



subsection \<open>The queries of the wizard\<close>

lemma issuedQueries_append:
  "issuedQueries (es @ fs) = issuedQueries es @ issuedQueries fs"
  by (induction es rule: issuedQueries.induct) simp_all

lemma searchPart_cases:
  "searchPart p ctx r search =
     (if resultsPromise ctx = None \<or> resultsKey ctx \<noteq> Some (toKey p search) then
        (ctx\<lparr>resultsPromise := Some (QueryPromise r search),
             resultsKey := Some (toKey p search)\<rparr>,
         [SearchForCommits r search])
      else (ctx, []))"
  by (simp add: searchPart_def Let_def)

lemma afterSearch_pass:
  "\<exists>ctx' st' es.
     (afterSearch p ctx st skippedStepOne r search i effects =
        Continue ctx' st' skippedStepOne (effects @ es) \<or>
      afterSearch p ctx st skippedStepOne r search i effects = Leave ctx' st' (effects @ es)) \<and>
     issuedQueries es = [] \<and> resultsKey ctx' = resultsKey ctx \<and>
     (resultsPromise ctx \<noteq> None \<longrightarrow> resultsPromise ctx' \<noteq> None)"
proof (cases "sidebarTruthy (showResultsInSideBar st)")
  case True
  then show ?thesis
    by (intro exI [of _ ctx] exI [of _ st]
        exI [of _ "[SearchInSideBar (path r) search (resultsPromise ctx)
              (case showResultsInSideBar st of Some (SideBarNode n) \<Rightarrow> Some n | _ \<Rightarrow> None)]"])
      (simp add: afterSearch_def)
next
  case False
  obtain c result loaded where a: "commitAnswer i = (c, result, loaded)"
    by (cases "commitAnswer i")
  show ?thesis
  proof (cases "counter st < 3 \<or> commit ctx = None")
    case enter: True
    show ?thesis
    proof (cases result)
      case Break
      with False enter a show ?thesis
        by (cases loaded)
          (auto simp: afterSearch_def Let_def intro!: exI [of _ "[]"])
    next
      case (Picked cm)
      with False enter a show ?thesis
        by (cases loaded; cases "truthy (openPickInView st)")
          (auto simp: afterSearch_def Let_def intro!: exI [of _ "[]"]
            exI [of _ "[ShowDetailsView (Some cm)]"])
    qed
  next
    case skip: False
    with False show ?thesis
      by (cases "truthy (openPickInView st)")
        (auto simp: afterSearch_def Let_def intro!: exI [of _ "[]"]
          exI [of _ "[ShowDetailsView (commit ctx)]"])
  qed
qed


lemma withPattern_pass:
  "\<exists>ctx' st' es.
     (withPattern p ctx st skippedStepOne r pt i = Continue ctx' st' skippedStepOne es \<or>
      withPattern p ctx st skippedStepOne r pt i = Leave ctx' st' es) \<and>
     issuedQueries es =
       (if resultsPromise ctx = None \<or> resultsKey ctx \<noteq> Some (toKey p (searchOf st pt))
        then [(r, searchOf st pt)] else []) \<and>
     queryStep p ctx ctx' (issuedQueries es)"
proof -
  let ?s = "searchOf st pt"
  obtain ctx1 es1 where sp: "searchPart p ctx r ?s = (ctx1, es1)"
    by (cases "searchPart p ctx r ?s")
  obtain ctx' st' es where
    a: "afterSearch p ctx1 st skippedStepOne r ?s i es1 = Continue ctx' st' skippedStepOne (es1 @ es) \<or>
        afterSearch p ctx1 st skippedStepOne r ?s i es1 = Leave ctx' st' (es1 @ es)"
    and q: "issuedQueries es = []" and k: "resultsKey ctx' = resultsKey ctx1"
    and pr: "resultsPromise ctx1 \<noteq> None \<longrightarrow> resultsPromise ctx' \<noteq> None"
    using afterSearch_pass [of p ctx1 st skippedStepOne r ?s i es1] by blast
  have w: "withPattern p ctx st skippedStepOne r pt i =
      afterSearch p ctx1 st skippedStepOne r ?s i es1"
    by (simp add: withPattern_def Let_def sp)
  show ?thesis
  proof (cases "resultsPromise ctx = None \<or> resultsKey ctx \<noteq> Some (toKey p ?s)")
    case True
    with sp have "ctx1 = ctx\<lparr>resultsPromise := Some (QueryPromise r ?s),
        resultsKey := Some (toKey p ?s)\<rparr>" and "es1 = [SearchForCommits r ?s]"
      by (simp_all add: searchPart_cases)
    with a q k pr True w show ?thesis
      by (intro exI [of _ ctx'] exI [of _ st'] exI [of _ "es1 @ es"])
        (auto simp: issuedQueries_append queryStep_def)
  next
    case False
    with sp have "ctx1 = ctx" and "es1 = []"
      by (simp_all add: searchPart_cases)
    with a q k pr False w show ?thesis
      by (intro exI [of _ ctx'] exI [of _ st'] exI [of _ "es1 @ es"])
        (auto simp: issuedQueries_append queryStep_def)
  qed
qed

lemma queryStep_same: "queryStep p ctx ctx []"
  by (simp add: queryStep_def)

lemma operatorPart_pass:
  "operatorPart p ctx st skippedStepOne r i = PassThrows \<or>
   (\<exists>ctx' st' es.
      (operatorPart p ctx st skippedStepOne r i = Continue ctx' st' skippedStepOne es \<or>
       operatorPart p ctx st skippedStepOne r i = Leave ctx' st' es) \<and>
      queryStep p ctx ctx' (issuedQueries es))"
proof (cases "pickSearchOperatorStep p st (pickerEvents i) (pickerSelection i)")
  case Throws
  then show ?thesis by (simp add: operatorPart_def)
next
  case (Returns res)
  obtain st2 result where res: "res = (st2, result)" by (cases res)
  show ?thesis
  proof (cases result)
    case Break
    with Returns res show ?thesis
      by (auto simp: operatorPart_def Let_def queryStep_same)
  next
    case (Picked pt)
    with Returns res have "operatorPart p ctx st skippedStepOne r i =
        withPattern p ctx (st2\<lparr>pattern := Some pt\<rparr>) skippedStepOne r pt i"
      by (simp add: operatorPart_def)
    with withPattern_pass [of p ctx "st2\<lparr>pattern := Some pt\<rparr>" skippedStepOne r pt i]
    show ?thesis by metis
  qed
qed

lemma loopPass_pass:
  "loopPass p ctx st skippedStepOne i = PassThrows \<or>
   (\<exists>ctx' st' skipped' es.
      (loopPass p ctx st skippedStepOne i = Continue ctx' st' skipped' es \<or>
       loopPass p ctx st skippedStepOne i = Leave ctx' st' es) \<and>
      queryStep p ctx ctx' (issuedQueries es))"
proof -
  obtain st1 res where rp: "repositoryPart ctx st skippedStepOne i = (st1, res)"
    by (cases "repositoryPart ctx st skippedStepOne i")
  show ?thesis
  proof (cases res)
    case Break
    with rp have "loopPass p ctx st skippedStepOne i = Leave ctx st1 []"
      by (simp add: loopPass_def)
    then show ?thesis using queryStep_same [of p ctx] by force
  next
    case (Picked sr)
    obtain skipped1 r where sr: "sr = (skipped1, r)" by (cases sr)
    show ?thesis
    proof (cases "pattern st1 = None \<or> counter st1 < 2")
      case True
      with rp Picked sr have "loopPass p ctx st skippedStepOne i =
          operatorPart p ctx st1 skipped1 r i"
        by (auto simp: loopPass_def split: option.splits)
      with operatorPart_pass [of p ctx st1 skipped1 r i] show ?thesis by metis
    next
      case False
      then obtain pt where "pattern st1 = Some pt" by auto
      with False rp Picked sr have "loopPass p ctx st skippedStepOne i =
          withPattern p ctx st1 skipped1 r pt i"
        by (simp add: loopPass_def)
      with withPattern_pass [of p ctx st1 skipped1 r pt i] show ?thesis by metis
    qed
  qed
qed

lemma agrees_step:
  assumes "agrees p ctx qs" and "distinct_adj (map (toKey p \<circ> snd) qs)"
    and "queryStep p ctx ctx' qs'"
  shows "agrees p ctx' (qs @ qs') \<and> distinct_adj (map (toKey p \<circ> snd) (qs @ qs'))"
proof (cases qs')
  case Nil
  with assms show ?thesis
    by (auto simp: agrees_def queryStep_def)
next
  case (Cons q rest)
  with assms(3) obtain r s where q: "qs' = [(r, s)]"
    by (cases q; cases rest) (auto simp: queryStep_def)
  with assms show ?thesis
    by (auto simp: agrees_def queryStep_def distinct_adj_append_iff last_map)
qed

lemma stepsLoop_queries:
  assumes "agrees p ctx (issuedQueries done)"
    and "distinct_adj (map (toKey p \<circ> snd) (issuedQueries done))"
  shows "distinct_adj (map (toKey p \<circ> snd)
     (issuedQueries (runEffects (stepsLoop p ctx st skippedStepOne done answers))))"
  using assms
proof (induction answers arbitrary: ctx st skippedStepOne "done")
  case Nil
  then show ?case by simp
next
  case (Cons i rest)
  show ?case
  proof (cases "canStepsContinue p st")
    case False
    with Cons.prems show ?thesis by simp
  next
    case True
    from loopPass_pass [of p ctx st skippedStepOne i]
    consider "loopPass p ctx st skippedStepOne i = PassThrows"
      | ctx' st' skipped' es where
        "loopPass p ctx st skippedStepOne i = Continue ctx' st' skipped' es"
        "queryStep p ctx ctx' (issuedQueries es)"
      | ctx' st' es where
        "loopPass p ctx st skippedStepOne i = Leave ctx' st' es"
        "queryStep p ctx ctx' (issuedQueries es)"
      by blast
    then show ?thesis
    proof cases
      case 1
      with True show ?thesis by simp
    next
      case 2
      from agrees_step [OF Cons.prems 2(2)]
      have "agrees p ctx' (issuedQueries (done @ es))"
        and "distinct_adj (map (toKey p \<circ> snd) (issuedQueries (done @ es)))"
        by (simp_all add: issuedQueries_append)
      then have "distinct_adj (map (toKey p \<circ> snd)
          (issuedQueries (runEffects (stepsLoop p ctx' st' skipped' (done @ es) rest))))"
        by (rule Cons.IH)
      with True 2(1) show ?thesis by (simp add: comp_def)
    next
      case 3
      from agrees_step [OF Cons.prems 3(2)]
      have "distinct_adj (map (toKey p \<circ> snd) (issuedQueries (done @ es)))"
        by (simp add: issuedQueries_append)
      with True 3(1) show ?thesis by (simp add: comp_def)
    qed
  qed
qed


lemma withPattern_queries:
  "issuedQueries (passEffects (withPattern p ctx st skippedStepOne r pt i)) =
     (if resultsPromise ctx = None \<or>
         resultsKey ctx \<noteq> Some (toKey p (SearchPattern pt (matchAll st) (matchCase st) (matchRegex st)))
      then [(r, SearchPattern pt (matchAll st) (matchCase st) (matchRegex st))] else [])"
  using withPattern_pass [of p ctx st skippedStepOne r pt i]
  by (auto simp: searchOf_def)

lemma pickSearchOperatorStep_picked:
  assumes "pickSearchOperatorStep p st evs selection = Returns (st2, Picked pt)"
  shows "\<exists>item others. selection = Some (item # others) \<and> pt = trim item \<and>
     matchAll st2 = matchAll (fold applyPickerEvent evs st) \<and>
     matchCase st2 = matchCase (fold applyPickerEvent evs st) \<and>
     matchRegex st2 = matchRegex (fold applyPickerEvent evs st)"
  using assms
  by (auto simp: pickSearchOperatorStep_def Let_def
      split: prod.splits if_splits option.splits list.splits)

lemma loopPass_withPattern:
  assumes "repositoryPart ctx st skippedStepOne i = (st1, Picked (skipped1, r))"
  shows "pattern st1 = Some pt \<and> \<not> counter st1 < 2 \<longrightarrow>
           loopPass p ctx st skippedStepOne i = withPattern p ctx st1 skipped1 r pt i"
    and "(pattern st1 = None \<or> counter st1 < 2) \<and>
         pickSearchOperatorStep p st1 (pickerEvents i) (pickerSelection i) =
           Returns (st2, Picked pt) \<longrightarrow>
           loopPass p ctx st skippedStepOne i =
             withPattern p ctx (st2\<lparr>pattern := Some pt\<rparr>) skipped1 r pt i"
  using assms by (auto simp: loopPass_def operatorPart_def split: option.splits)

text \<open>
  Claim C8, as stated, fails: the text the user supplies is not handed on as it is. With the
  selection \<open>'' foo ''\<close> in the operator step, the query is for \<open>''foo''\<close>.
\<close>

theorem selected_text_is_trimmed:
  "pickerSelection (search_then_back '' foo '' []) = Some ['' foo ''] \<and>
   issuedQueries (passEffects (loopPass example_params single_context defaulted_state False
     (search_then_back '' foo '' []))) =
     [(example_repository, SearchPattern ''foo'' (Some False) (Some False) (Some True))] \<and>
   ''foo'' \<noteq> '' foo ''"
  by (simp add: search_then_back_def loopPass_def repositoryPart_def pickRepository_def
      single_context_def defaulted_state_def applyDefaults_def fresh_state_def
      example_settings_def example_params_def operatorPart_def pickSearchOperatorStep_def
      trim_def whiteSpace_def withPattern_def searchOf_def searchPart_def afterSearch_def
      sidebarTruthy_def truthy_def Let_def)

text \<open>
  Claim C8, amended. From line 163 on, the only query a pass issues is for the pattern of the
  state and its three flags, as they are; it is issued when there is no results promise yet
  or the key of the search differs from the key stored with the last query, and otherwise
  the context, with its promise, stays as it is. The pattern of the state is the one it came
  with, or the selected text with the white space at its ends removed, which the operator
  step has stored in it, and the flags are those of the state after the clicks of that
  step. Over a whole run of the wizard, two queries issued one after the other never have
  the same key.
\<close>

theorem search_pattern_of_state:
  "issuedQueries (passEffects (withPattern p ctx st skippedStepOne r pt i)) =
     (if resultsPromise ctx = None \<or>
         resultsKey ctx \<noteq> Some (toKey p (SearchPattern pt (matchAll st) (matchCase st) (matchRegex st)))
      then [(r, SearchPattern pt (matchAll st) (matchCase st) (matchRegex st))] else []) \<and>
   searchPart p ctx r search =
     (if resultsPromise ctx = None \<or> resultsKey ctx \<noteq> Some (toKey p search) then
        (ctx\<lparr>resultsPromise := Some (QueryPromise r search),
             resultsKey := Some (toKey p search)\<rparr>,
         [SearchForCommits r search])
      else (ctx, [])) \<and>
   (repositoryPart ctx st skippedStepOne i = (st1, Picked (skipped1, r)) \<and>
    pattern st1 = Some pt \<and> \<not> counter st1 < 2 \<longrightarrow>
      loopPass p ctx st skippedStepOne i = withPattern p ctx st1 skipped1 r pt i) \<and>
   (repositoryPart ctx st skippedStepOne i = (st1, Picked (skipped1, r)) \<and>
    (pattern st1 = None \<or> counter st1 < 2) \<and>
    pickSearchOperatorStep p st1 (pickerEvents i) (pickerSelection i) =
      Returns (st2, Picked pt) \<longrightarrow>
      loopPass p ctx st skippedStepOne i =
        withPattern p ctx (st2\<lparr>pattern := Some pt\<rparr>) skipped1 r pt i \<and>
      (\<exists>item others. pickerSelection i = Some (item # others) \<and> pt = trim item \<and>
         matchAll st2 = matchAll (fold applyPickerEvent (pickerEvents i) st1) \<and>
         matchCase st2 = matchCase (fold applyPickerEvent (pickerEvents i) st1) \<and>
         matchRegex st2 = matchRegex (fold applyPickerEvent (pickerEvents i) st1))) \<and>
   distinct_adj (map (toKey p \<circ> snd)
     (issuedQueries (runEffects (steps p openRepos cfg st0 answers))))"
proof (intro conjI impI)
  show "issuedQueries (passEffects (withPattern p ctx st skippedStepOne r pt i)) =
     (if resultsPromise ctx = None \<or>
         resultsKey ctx \<noteq> Some (toKey p (SearchPattern pt (matchAll st) (matchCase st) (matchRegex st)))
      then [(r, SearchPattern pt (matchAll st) (matchCase st) (matchRegex st))] else [])"
    by (rule withPattern_queries)
next
  show "searchPart p ctx r search =
     (if resultsPromise ctx = None \<or> resultsKey ctx \<noteq> Some (toKey p search) then
        (ctx\<lparr>resultsPromise := Some (QueryPromise r search),
             resultsKey := Some (toKey p search)\<rparr>,
         [SearchForCommits r search])
      else (ctx, []))"
    by (rule searchPart_cases)
next
  assume "repositoryPart ctx st skippedStepOne i = (st1, Picked (skipped1, r)) \<and>
    pattern st1 = Some pt \<and> \<not> counter st1 < 2"
  then show "loopPass p ctx st skippedStepOne i = withPattern p ctx st1 skipped1 r pt i"
    using loopPass_withPattern(1) by blast
next
  assume a: "repositoryPart ctx st skippedStepOne i = (st1, Picked (skipped1, r)) \<and>
    (pattern st1 = None \<or> counter st1 < 2) \<and>
    pickSearchOperatorStep p st1 (pickerEvents i) (pickerSelection i) =
      Returns (st2, Picked pt)"
  then show "loopPass p ctx st skippedStepOne i =
        withPattern p ctx (st2\<lparr>pattern := Some pt\<rparr>) skipped1 r pt i"
    using loopPass_withPattern(2) by blast
  from a show "\<exists>item others. pickerSelection i = Some (item # others) \<and> pt = trim item \<and>
         matchAll st2 = matchAll (fold applyPickerEvent (pickerEvents i) st1) \<and>
         matchCase st2 = matchCase (fold applyPickerEvent (pickerEvents i) st1) \<and>
         matchRegex st2 = matchRegex (fold applyPickerEvent (pickerEvents i) st1)"
    using pickSearchOperatorStep_picked by blast
next
  show "distinct_adj (map (toKey p \<circ> snd)
     (issuedQueries (runEffects (steps p openRepos cfg st0 answers))))"
    unfolding steps_def by (rule stepsLoop_queries) (simp_all add: agrees_def)
qed


lemma trim_examples:
  "trim '' foo '' = ''foo''" "trim ''foo'' = ''foo''" "trim ''bar'' = ''bar''"
  by (simp_all add: trim_def whiteSpace_def)

lemma example_picked:
  "pickSearchOperatorStep example_params skipped_state
     (pickerEvents (search_then_back '' foo '' [])) (pickerSelection (search_then_back '' foo '' [])) =
   Returns (skipped_state\<lparr>counter := 3\<rparr>, Picked ''foo'')"
  by (simp add: pickSearchOperatorStep_def search_then_back_def example_params_def trim_examples)

lemma example_run_queries:
  "issuedQueries (runEffects (steps example_params [example_repository] example_settings
      fresh_state
      [search_then_back '' foo '' [], search_then_back ''foo'' [], search_then_back ''bar'' []])) =
   [(example_repository, SearchPattern ''foo'' (Some False) (Some False) (Some True)),
    (example_repository, SearchPattern ''bar'' (Some False) (Some False) (Some True))]"
  by (simp add: steps_def applyDefaults_def fresh_state_def example_settings_def
      example_params_def loopPass_def repositoryPart_def pickRepository_def operatorPart_def
      pickSearchOperatorStep_def search_then_back_def trim_examples withPattern_def searchOf_def
      searchPart_def afterSearch_def sidebarTruthy_def truthy_def example_toKey_def Let_def)

theorem search_pattern_of_state_witness:
  "(repositoryPart single_context defaulted_state False (search_then_back '' foo '' []) =
      (skipped_state, Picked (True, example_repository)) \<and>
    (pattern skipped_state = None \<or> counter skipped_state < 2) \<and>
    pickSearchOperatorStep example_params skipped_state
      (pickerEvents (search_then_back '' foo '' []))
      (pickerSelection (search_then_back '' foo '' [])) =
      Returns (skipped_state\<lparr>counter := 3\<rparr>, Picked ''foo'')) \<and>
   loopPass example_params single_context defaulted_state False (search_then_back '' foo '' []) =
     withPattern example_params single_context (skipped_state\<lparr>counter := 3, pattern := Some ''foo''\<rparr>)
       True example_repository ''foo'' (search_then_back '' foo '' []) \<and>
   issuedQueries (runEffects (steps example_params [example_repository] example_settings
      fresh_state
      [search_then_back '' foo '' [], search_then_back ''foo'' [], search_then_back ''bar'' []])) =
   [(example_repository, SearchPattern ''foo'' (Some False) (Some False) (Some True)),
    (example_repository, SearchPattern ''bar'' (Some False) (Some False) (Some True))] \<and>
   distinct_adj (map (example_toKey \<circ> snd)
     [(example_repository, SearchPattern ''foo'' (Some False) (Some False) (Some True)),
      (example_repository, SearchPattern ''bar'' (Some False) (Some False) (Some True))])"
proof -
  have h: "repositoryPart single_context defaulted_state False (search_then_back '' foo '' []) =
      (skipped_state, Picked (True, example_repository)) \<and>
    (pattern skipped_state = None \<or> counter skipped_state < 2) \<and>
    pickSearchOperatorStep example_params skipped_state
      (pickerEvents (search_then_back '' foo '' []))
      (pickerSelection (search_then_back '' foo '' [])) =
      Returns (skipped_state\<lparr>counter := 3\<rparr>, Picked ''foo'')"
    using single_repositoryPart [of "search_then_back '' foo '' []"] skipped_state_cancel(1)
      example_picked by simp
  note t = search_pattern_of_state [of example_params single_context defaulted_state
      False example_repository "''foo''" "search_then_back '' foo '' []" undefined
      skipped_state True "skipped_state\<lparr>counter := 3\<rparr>" "[example_repository]"
      example_settings fresh_state
      "[search_then_back '' foo '' [], search_then_back ''foo'' [], search_then_back ''bar'' []]"]
  have l: "loopPass example_params single_context defaulted_state False
      (search_then_back '' foo '' []) =
     withPattern example_params single_context
       (skipped_state\<lparr>counter := 3, pattern := Some ''foo''\<rparr>)
       True example_repository ''foo'' (search_then_back '' foo '' [])"
    using t h by simp
  have d: "distinct_adj (map (example_toKey \<circ> snd)
     [(example_repository, SearchPattern ''foo'' (Some False) (Some False) (Some True)),
      (example_repository, SearchPattern ''bar'' (Some False) (Some False) (Some True))])"
    using t unfolding example_run_queries by (simp add: example_params_def)
  show ?thesis
    using h l d example_run_queries by blast
qed

end
